theory Spec2Isabelle
  imports Complex_Main "HOL-Library.Multiset"
begin

section \<open>JavaScript numbers\<close>

text \<open>
  Every number of the program is an ECMAScript Number: an IEEE 754 binary64 value. A slot
  typed \<open>number\<close> holds, at run time, a finite double, \<open>NaN\<close>, one of the two
  infinities, or \<open>undefined\<close> when an array is read out of range. Finite doubles are
  represented by the real number they denote; the two zeros are identified, as \<open>===\<close>
  and the relational operators identify them.
\<close>

datatype jsval = Undefined | NaN | NegInf | PosInf | Fin real

subsection \<open>Rounding to the nearest double, ties to even\<close>

text \<open>
  \<open>expo x\<close> is the binary exponent of the binade of \<open>x\<close>, not below that of the
  subnormals; \<open>ulp x\<close> the spacing of the doubles in that binade; \<open>rte\<close> rounds a real
  to the nearest integer, a tie to the even one. \<open>fl x\<close> is the Number that an arithmetic
  operation with exact result \<open>x\<close> returns: the nearest double, or an infinity when that
  rounding reaches \<open>2 ^ 1024\<close>.
\<close>

definition expo :: "real \<Rightarrow> int" where
  "expo x = max \<lfloor>log 2 \<bar>x\<bar>\<rfloor> (- 1022)"

definition ulp :: "real \<Rightarrow> real" where
  "ulp x = 2 powi (expo x - 52)"

definition rte :: "real \<Rightarrow> int" where
  "rte y = (let f = \<lfloor>y\<rfloor>; d = y - of_int f in
     if d < 1 / 2 then f else if 1 / 2 < d then f + 1 else if even f then f else f + 1)"

definition fl :: "real \<Rightarrow> jsval" where
  "fl x = (if x = 0 then Fin 0 else
     let r = of_int (rte (x / ulp x)) * ulp x in
     if 2 ^ 1024 \<le> \<bar>r\<bar> then (if 0 < x then PosInf else NegInf) else Fin r)"

text \<open>The doubles denoted by the literals \<open>0.1\<close>, \<open>0.95\<close> and \<open>0.99\<close>.\<close>

definition d0_1 :: real where
  "d0_1 = 3602879701896397 / 36028797018963968"

definition d0_95 :: real where
  "d0_95 = 4278419646001971 / 4503599627370496"

definition d0_99 :: real where
  "d0_99 = 4458563631096791 / 4503599627370496"

subsection \<open>Operators\<close>

text \<open>
  The arithmetic operators convert \<open>undefined\<close> to \<open>NaN\<close>, propagate \<open>NaN\<close>,
  follow IEEE 754 on the infinities and round the exact result of finite operands.
\<close>

definition inf_of_sign :: "bool \<Rightarrow> jsval" where
  "inf_of_sign positive = (if positive then PosInf else NegInf)"

fun js_neg :: "jsval \<Rightarrow> jsval" where
  "js_neg (Fin x) = Fin (- x)"
| "js_neg PosInf = NegInf"
| "js_neg NegInf = PosInf"
| "js_neg NaN = NaN"
| "js_neg Undefined = NaN"

fun js_add :: "jsval \<Rightarrow> jsval \<Rightarrow> jsval" where
  "js_add (Fin x) (Fin y) = fl (x + y)"
| "js_add Undefined _ = NaN"
| "js_add _ Undefined = NaN"
| "js_add NaN _ = NaN"
| "js_add _ NaN = NaN"
| "js_add PosInf NegInf = NaN"
| "js_add NegInf PosInf = NaN"
| "js_add PosInf _ = PosInf"
| "js_add _ PosInf = PosInf"
| "js_add NegInf _ = NegInf"
| "js_add _ NegInf = NegInf"

definition js_sub :: "jsval \<Rightarrow> jsval \<Rightarrow> jsval" where
  "js_sub a b = js_add a (js_neg b)"

fun js_mul :: "jsval \<Rightarrow> jsval \<Rightarrow> jsval" where
  "js_mul (Fin x) (Fin y) = fl (x * y)"
| "js_mul Undefined _ = NaN"
| "js_mul _ Undefined = NaN"
| "js_mul NaN _ = NaN"
| "js_mul _ NaN = NaN"
| "js_mul (Fin x) PosInf = (if x = 0 then NaN else inf_of_sign (0 < x))"
| "js_mul (Fin x) NegInf = (if x = 0 then NaN else inf_of_sign (x < 0))"
| "js_mul PosInf (Fin y) = (if y = 0 then NaN else inf_of_sign (0 < y))"
| "js_mul NegInf (Fin y) = (if y = 0 then NaN else inf_of_sign (y < 0))"
| "js_mul PosInf PosInf = PosInf"
| "js_mul NegInf NegInf = PosInf"
| "js_mul PosInf NegInf = NegInf"
| "js_mul NegInf PosInf = NegInf"

fun js_div :: "jsval \<Rightarrow> jsval \<Rightarrow> jsval" where
  "js_div (Fin x) (Fin y) =
     (if y = 0 then (if x = 0 then NaN else inf_of_sign (0 < x)) else fl (x / y))"
| "js_div Undefined _ = NaN"
| "js_div _ Undefined = NaN"
| "js_div NaN _ = NaN"
| "js_div _ NaN = NaN"
| "js_div (Fin x) _ = Fin 0"
| "js_div PosInf (Fin y) = inf_of_sign (0 \<le> y)"
| "js_div NegInf (Fin y) = inf_of_sign (y < 0)"
| "js_div _ _ = NaN"

text \<open>The relational operators are false as soon as an operand is \<open>NaN\<close> or \<open>undefined\<close>.\<close>

fun js_lt :: "jsval \<Rightarrow> jsval \<Rightarrow> bool" where
  "js_lt (Fin x) (Fin y) = (x < y)"
| "js_lt NegInf (Fin y) = True"
| "js_lt NegInf PosInf = True"
| "js_lt (Fin x) PosInf = True"
| "js_lt _ _ = False"

definition js_gt :: "jsval \<Rightarrow> jsval \<Rightarrow> bool" where
  "js_gt a b = js_lt b a"

fun js_le :: "jsval \<Rightarrow> jsval \<Rightarrow> bool" where
  "js_le (Fin x) (Fin y) = (x \<le> y)"
| "js_le NegInf (Fin y) = True"
| "js_le NegInf PosInf = True"
| "js_le (Fin x) PosInf = True"
| "js_le NegInf NegInf = True"
| "js_le PosInf PosInf = True"
| "js_le _ _ = False"

subsection \<open>The Math functions and array reads the program uses\<close>

fun Math_floor :: "jsval \<Rightarrow> jsval" where
  "Math_floor (Fin x) = Fin (of_int \<lfloor>x\<rfloor>)"
| "Math_floor Undefined = NaN"
| "Math_floor v = v"

text \<open>\<open>Math.pow(v, 2)\<close>: the rounded square.\<close>

fun Math_pow2 :: "jsval \<Rightarrow> jsval" where
  "Math_pow2 (Fin x) = fl (x * x)"
| "Math_pow2 PosInf = PosInf"
| "Math_pow2 NegInf = PosInf"
| "Math_pow2 _ = NaN"

fun Math_sqrt :: "jsval \<Rightarrow> jsval" where
  "Math_sqrt (Fin x) = (if x < 0 then NaN else fl (sqrt x))"
| "Math_sqrt PosInf = PosInf"
| "Math_sqrt _ = NaN"

text \<open>
  \<open>xs[k]\<close> on an array of numbers: the element when \<open>k\<close> is an index of the array,
  \<open>undefined\<close> for every other key (negative, fractional, beyond the length, \<open>NaN\<close>).
\<close>

fun js_index :: "real list \<Rightarrow> jsval \<Rightarrow> jsval" where
  "js_index xs (Fin k) =
     (if of_int \<lfloor>k\<rfloor> = k \<and> 0 \<le> k \<and> k < real (length xs) then Fin (xs ! nat \<lfloor>k\<rfloor>)
      else Undefined)"
| "js_index xs _ = Undefined"

section \<open>Statistics: performance-metrics.ts\<close>

record PerformanceStats =
  mean :: jsval
  median :: jsval
  min_stat :: jsval
  max_stat :: jsval
  p95 :: jsval
  p99 :: jsval
  stdDev :: jsval

text \<open>
  \<open>calculateStats\<close>. The durations are finite Numbers (differences of two readings of
  the clock), given by the reals they denote. The copy is sorted with the comparator
  \<open>(a, b) => a - b\<close>, whose sign on finite doubles is that of the exact difference: the
  ascending sort. Both \<open>reduce\<close> calls run over the sorted copy from the left, starting
  at \<open>0\<close>.
\<close>

definition calculateStats :: "real list \<Rightarrow> PerformanceStats" where
  "calculateStats durations =
    (let sorted = sort durations;
         n = Fin (real (length sorted));
         mean_v = js_div (foldl (\<lambda>sum val. js_add sum (Fin val)) (Fin 0) sorted) n;
         median_v = js_index sorted (Math_floor (js_div n (Fin 2)));
         min_v = js_index sorted (Fin 0);
         max_v = js_index sorted (js_sub n (Fin 1));
         p95_v = js_index sorted (Math_floor (js_mul n (Fin d0_95)));
         p99_v = js_index sorted (Math_floor (js_mul n (Fin d0_99)));
         variance = js_div
           (foldl (\<lambda>sum val. js_add sum (Math_pow2 (js_sub (Fin val) mean_v))) (Fin 0) sorted) n;
         stdDev_v = Math_sqrt variance
     in \<lparr>mean = mean_v, median = median_v, min_stat = min_v, max_stat = max_v,
         p95 = p95_v, p99 = p99_v, stdDev = stdDev_v\<rparr>)"

text \<open>
  The summary as the specification words it: \<open>n\<close> the count; the mean the sum of the
  sorted copy over \<open>n\<close>; the order statistics the elements of the sorted copy at the
  positions \<open>floor(n/2)\<close>, \<open>0\<close>, \<open>n - 1\<close>, \<open>floor(n * 0.95)\<close> and
  \<open>floor(n * 0.99)\<close>, in exact arithmetic; the deviation the root of the mean of the
  squared deviations from the mean (divisor \<open>n\<close>). Sums, quotients, squares and the root
  are those of Numbers.
\<close>

definition number_sum :: "jsval list \<Rightarrow> jsval" where
  "number_sum vs = foldl js_add (Fin 0) vs"

definition summarize_spec :: "real list \<Rightarrow> PerformanceStats" where
  "summarize_spec ds =
    (let sorted = sort ds;
         n = length ds;
         mean_v = js_div (number_sum (map Fin sorted)) (Fin (real n));
         deviations = map (\<lambda>v. Math_pow2 (js_sub (Fin v) mean_v)) sorted
     in \<lparr>mean = mean_v,
         median = Fin (sorted ! (n div 2)),
         min_stat = Fin (sorted ! 0),
         max_stat = Fin (sorted ! (n - 1)),
         p95 = Fin (sorted ! (95 * n div 100)),
         p99 = Fin (sorted ! (99 * n div 100)),
         stdDev = Math_sqrt (js_div (number_sum deviations) (Fin (real n)))\<rparr>)"

section \<open>Reports and comparisons: the storage utilities and the comparison tool\<close>

text \<open>
  The optional \<open>metadata\<close> of a test result is read by none of the functions below and
  is left out. \<open>timestamp\<close> and \<open>testName\<close> occur in several interfaces of the source;
  the report's and the comparison's fields are prefixed.
\<close>

record TestResult =
  testName :: string
  timestamp :: string
  commit :: "string option"
  branch :: "string option"
  stats :: PerformanceStats
  iterations :: nat

record Environment =
  node :: string
  platform :: string
  arch :: string

record PerformanceReport =
  testSuite :: string
  report_timestamp :: string
  environment :: Environment
  results :: "TestResult list"

record Changes =
  meanChange :: jsval
  medianChange :: jsval
  p95Change :: jsval
  p99Change :: jsval

record ComparisonResult =
  cmp_testName :: string
  baseline :: PerformanceStats
  current :: PerformanceStats
  changes :: Changes
  regression :: bool
  improvement :: bool

subsection \<open>The file system\<close>

text \<open>
  What the program sees of the disk: the working directory, the entries of the results
  directory (absent when the directory does not exist; otherwise the file names with their
  modification times in milliseconds, in the order \<open>readdirSync\<close> lists them), and the
  content of the file at a path, which is either the JSON text of a report or a text on
  which \<open>JSON.parse\<close> throws.
\<close>

datatype file_content = Report PerformanceReport | Text string

record filesystem =
  cwd :: string
  dir_entries :: "(string \<times> int) list option"
  files :: "string \<Rightarrow> file_content option"

datatype js_exn = Error string | TypeError string | SyntaxError string

definition join :: "string \<Rightarrow> string \<Rightarrow> string" where
  "join a b = a @ ''/'' @ b"

definition RESULTS_DIR :: "filesystem \<Rightarrow> string" where
  "RESULTS_DIR fs = join (cwd fs) ''performance-results''"

definition BASELINE_FILE :: "filesystem \<Rightarrow> string" where
  "BASELINE_FILE fs = join (RESULTS_DIR fs) ''baseline.json''"

definition endsWith :: "string \<Rightarrow> string \<Rightarrow> bool" where
  "endsWith s suffix =
     (length suffix \<le> length s \<and> drop (length s - length suffix) s = suffix)"

text \<open>\<open>Array.prototype.sort\<close> is stable; so is \<open>sort_key\<close>.\<close>

record file_info =
  name :: string
  path :: string
  mtime :: int

definition file_info_of :: "filesystem \<Rightarrow> string \<times> int \<Rightarrow> file_info" where
  "file_info_of fs e = \<lparr>name = fst e, path = join (RESULTS_DIR fs) (fst e), mtime = snd e\<rparr>"

definition newest_first :: "file_info list \<Rightarrow> file_info list" where
  "newest_first fs_list = sort_key (\<lambda>f. - mtime f) fs_list"

subsection \<open>The comparison\<close>

text \<open>
  The body of the loop of \<open>compareWithBaseline\<close> and of \<open>compareReports\<close> for a
  current result and the baseline result found for it.
\<close>

definition compare_pair :: "jsval \<Rightarrow> jsval \<Rightarrow> TestResult \<Rightarrow> TestResult \<Rightarrow> ComparisonResult" where
  "compare_pair regressionThreshold improvementThreshold baselineResult currentResult =
    (let meanChange_v =
           js_div (js_sub (mean (stats currentResult)) (mean (stats baselineResult)))
             (mean (stats baselineResult));
         medianChange_v =
           js_div (js_sub (median (stats currentResult)) (median (stats baselineResult)))
             (median (stats baselineResult));
         p95Change_v =
           js_div (js_sub (p95 (stats currentResult)) (p95 (stats baselineResult)))
             (p95 (stats baselineResult));
         p99Change_v =
           js_div (js_sub (p99 (stats currentResult)) (p99 (stats baselineResult)))
             (p99 (stats baselineResult));
         regression_v = js_gt meanChange_v regressionThreshold;
         improvement_v = js_lt meanChange_v (js_neg improvementThreshold)
     in \<lparr>cmp_testName = testName currentResult,
         baseline = stats baselineResult,
         current = stats currentResult,
         changes = \<lparr>meanChange = meanChange_v, medianChange = medianChange_v,
                     p95Change = p95Change_v, p99Change = p99Change_v\<rparr>,
         regression = regression_v,
         improvement = improvement_v\<rparr>)"

text \<open>
  The loop over \<open>current.results\<close>; its state is the warnings printed so far and the
  comparisons pushed so far.
\<close>

fun compare_loop ::
  "jsval \<Rightarrow> jsval \<Rightarrow> TestResult list \<Rightarrow> TestResult list \<Rightarrow>
   string list \<times> ComparisonResult list \<Rightarrow> string list \<times> ComparisonResult list" where
  "compare_loop rt it baseline_results [] st = st"
| "compare_loop rt it baseline_results (currentResult # rest) (warns, comparisons) =
    (case find (\<lambda>r. testName r = testName currentResult) baseline_results of
       None \<Rightarrow>
         compare_loop rt it baseline_results rest
           (warns @ [''No baseline found for test: '' @ testName currentResult], comparisons)
     | Some baselineResult \<Rightarrow>
         compare_loop rt it baseline_results rest
           (warns, comparisons @ [compare_pair rt it baselineResult currentResult]))"

definition loadBaseline :: "filesystem \<Rightarrow> PerformanceReport option" where
  "loadBaseline fs =
    (case files fs (BASELINE_FILE fs) of
       None \<Rightarrow> None
     | Some (Text t) \<Rightarrow> None
     | Some (Report r) \<Rightarrow> Some r)"

definition compareWithBaseline ::
  "filesystem \<Rightarrow> PerformanceReport \<Rightarrow> jsval \<Rightarrow> string list \<times> ComparisonResult list" where
  "compareWithBaseline fs current_report regressionThreshold =
    (case loadBaseline fs of
       None \<Rightarrow> ([''No baseline found. Run with --save-baseline to create one.''], [])
     | Some baseline_report \<Rightarrow>
         compare_loop regressionThreshold regressionThreshold
           (results baseline_report) (results current_report) ([], []))"

definition REGRESSION_THRESHOLD :: jsval where
  "REGRESSION_THRESHOLD = Fin d0_1"

definition IMPROVEMENT_THRESHOLD :: jsval where
  "IMPROVEMENT_THRESHOLD = Fin d0_1"

definition compareReports ::
  "PerformanceReport \<Rightarrow> PerformanceReport \<Rightarrow> string list \<times> ComparisonResult list" where
  "compareReports baseline_report current_report =
     compare_loop REGRESSION_THRESHOLD IMPROVEMENT_THRESHOLD
       (results baseline_report) (results current_report) ([], [])"

text \<open>
  The comparison as the specification words it: one result per current test that has a
  baseline test of the same name, in the order of the current report.
\<close>

definition compare_spec ::
  "jsval \<Rightarrow> TestResult list \<Rightarrow> TestResult list \<Rightarrow> ComparisonResult list" where
  "compare_spec threshold baseline_results current_results =
     List.map_filter
       (\<lambda>c. map_option (\<lambda>b. compare_pair threshold threshold b c)
              (find (\<lambda>r. testName r = testName c) baseline_results))
       current_results"

definition regressionCount :: "ComparisonResult list \<Rightarrow> nat" where
  "regressionCount comparisons = length (filter (\<lambda>c. regression c) comparisons)"

definition improvementCount :: "ComparisonResult list \<Rightarrow> nat" where
  "improvementCount comparisons = length (filter (\<lambda>c. improvement c) comparisons)"

definition stableCount :: "ComparisonResult list \<Rightarrow> nat" where
  "stableCount comparisons =
     length (filter (\<lambda>c. \<not> regression c \<and> \<not> improvement c) comparisons)"

subsection \<open>The comparison tool\<close>

text \<open>
  How a run of the tool ends: \<open>process.exit\<close> with a code, an uncaught exception, or the
  return of \<open>main\<close>. The lines written to the error stream come with it (the
  pictographs of the messages are left out).
\<close>

datatype outcome = Exit nat | Throw js_exn | Return

definition loadReport :: "filesystem \<Rightarrow> string \<Rightarrow> js_exn + PerformanceReport" where
  "loadReport fs filepath =
    (case files fs filepath of
       None \<Rightarrow> Inl (Error (''File not found: '' @ filepath))
     | Some (Text t) \<Rightarrow> Inl (SyntaxError t)
     | Some (Report r) \<Rightarrow> Inr r)"

definition getLatestReport :: "filesystem \<Rightarrow> string option" where
  "getLatestReport fs =
    (case dir_entries fs of
       None \<Rightarrow> None
     | Some entries \<Rightarrow>
         (let found = newest_first (map (file_info_of fs)
                (filter (\<lambda>e. endsWith (fst e) ''_report_'' \<and> endsWith (fst e) ''.json'') entries))
          in if length found > 0 then Some (path (found ! 0)) else None))"

definition printComparison :: "ComparisonResult list \<Rightarrow> outcome" where
  "printComparison comparisons = (if regressionCount comparisons > 0 then Exit 1 else Return)"

definition compare_and_print ::
  "PerformanceReport \<Rightarrow> PerformanceReport \<Rightarrow> outcome \<times> string list" where
  "compare_and_print baselineReport currentReport =
    (case compareReports baselineReport currentReport of
       (warns, comparisons) \<Rightarrow>
         if length comparisons = 0
         then (Exit 1, warns @ [''No matching tests found between the two reports''])
         else (printComparison comparisons, warns))"

definition load_both ::
  "filesystem \<Rightarrow> string \<Rightarrow> string \<Rightarrow> outcome \<times> string list" where
  "load_both fs baseline_path current_path =
    (case loadReport fs baseline_path of
       Inl e \<Rightarrow> (Throw e, [])
     | Inr baselineReport \<Rightarrow>
         (case loadReport fs current_path of
            Inl e \<Rightarrow> (Throw e, [])
          | Inr currentReport \<Rightarrow> compare_and_print baselineReport currentReport))"

definition main :: "string list \<Rightarrow> filesystem \<Rightarrow> outcome \<times> string list" where
  "main args fs =
    (if length args = 2 then load_both fs (args ! 0) (args ! 1)
     else if length args = 0 then
       (if files fs (BASELINE_FILE fs) = None
        then (Exit 1, [''No baseline found!'',
                       ''   Run: SAVE_BASELINE=true pnpm test:performance to create one''])
        else (case getLatestReport fs of
                None \<Rightarrow> (Exit 1, [''No performance results found!'',
                                  ''   Run: pnpm test:performance to generate results''])
              | Some latestFile \<Rightarrow> load_both fs (BASELINE_FILE fs) latestFile))
     else (Exit 1, [''Usage:'',
                    ''  pnpm compare-performance                    # Compare latest with baseline'',
                    ''  pnpm compare-performance file1.json file2.json  # Compare two files'']))"

subsection \<open>Pruning old results\<close>

text \<open>\<open>xs.slice(start)\<close> for an integral \<open>start\<close>: a negative one counts from the end.\<close>

definition js_slice :: "int \<Rightarrow> 'a list \<Rightarrow> 'a list" where
  "js_slice start xs =
    (let len = int (length xs);
         k = (if start < 0 then max (len + start) 0 else min start len)
     in drop (nat k) xs)"

text \<open>
  \<open>unlinkSync\<close> on a file of the results directory: it throws when there is no such
  file and removes the file otherwise.
\<close>

definition unlinkSync :: "filesystem \<Rightarrow> file_info \<Rightarrow> js_exn + filesystem" where
  "unlinkSync fs f =
    (case dir_entries fs of
       None \<Rightarrow> Inl (Error (''ENOENT: '' @ path f))
     | Some entries \<Rightarrow>
         if name f \<in> fst ` set entries
         then Inr (fs\<lparr>dir_entries := Some (filter (\<lambda>e. fst e \<noteq> name f) entries),
                     files := (files fs)(path f := None)\<rparr>)
         else Inl (Error (''ENOENT: '' @ path f)))"

fun unlink_loop ::
  "file_info list \<Rightarrow> filesystem \<times> string list \<Rightarrow> filesystem \<times> string list" where
  "unlink_loop [] st = st"
| "unlink_loop (f # rest) (fs, msgs) =
    (case unlinkSync fs f of
       Inr fs' \<Rightarrow> unlink_loop rest (fs', msgs @ [''Deleted old result: '' @ name f])
     | Inl e \<Rightarrow> unlink_loop rest (fs, msgs @ [''Failed to delete '' @ name f]))"

definition cleanupOldResults :: "int \<Rightarrow> filesystem \<Rightarrow> filesystem \<times> string list" where
  "cleanupOldResults keepLast fs =
    (case dir_entries fs of
       None \<Rightarrow> (fs, [])
     | Some entries \<Rightarrow>
         (let found = newest_first (map (file_info_of fs)
                (filter (\<lambda>e. endsWith (fst e) ''.json'' \<and> fst e \<noteq> ''baseline.json'') entries));
              toDelete = js_slice keepLast found
          in case unlink_loop toDelete (fs, []) of
               (fs', msgs) \<Rightarrow>
                 (fs', if length toDelete > 0 then msgs @ [''Cleaned up old result files'']
                       else msgs)))"

subsection \<open>The CSV export\<close>

text \<open>
  The decimal digits of a natural number, and \<open>toFixed(2)\<close>: a non-finite Number gives
  its name, a finite one below \<open>10^21\<close> in magnitude the nearest multiple of \<open>0.01\<close> of
  its magnitude (the larger of two nearest), after the sign; calling it on
  \<open>undefined\<close> throws a TypeError. The text of a finite Number of magnitude
  \<open>10^21\<close> or more is that of \<open>Number.prototype.toString\<close>, a parameter here.
\<close>

definition digit :: "nat \<Rightarrow> char" where
  "digit d = ''0123456789'' ! (d mod 10)"

function dec :: "nat \<Rightarrow> string" where
  "dec n = (if n < 10 then [digit n] else dec (n div 10) @ [digit (n mod 10)])"
  by pat_completeness auto
termination
  by (relation "measure (\<lambda>n. n)") auto

definition toFixed2 :: "(real \<Rightarrow> string) \<Rightarrow> jsval \<Rightarrow> js_exn + string" where
  "toFixed2 numberToString v =
    (case v of
       Undefined \<Rightarrow> Inl (TypeError ''Cannot read properties of undefined (reading 'toFixed')'')
     | NaN \<Rightarrow> Inr ''NaN''
     | PosInf \<Rightarrow> Inr ''Infinity''
     | NegInf \<Rightarrow> Inr ''-Infinity''
     | Fin x \<Rightarrow>
         if 10 ^ 21 \<le> \<bar>x\<bar> then Inr (numberToString x)
         else (let n = nat \<lfloor>\<bar>x\<bar> * 100 + 1 / 2\<rfloor>
               in Inr ((if x < 0 then ''-'' else []) @ dec (n div 100) @ ''.'' @
                       [digit (n div 10), digit n])))"

fun sequence :: "(js_exn + 'a) list \<Rightarrow> js_exn + 'a list" where
  "sequence [] = Inr []"
| "sequence (Inl e # rest) = Inl e"
| "sequence (Inr v # rest) = (case sequence rest of Inl e \<Rightarrow> Inl e | Inr vs \<Rightarrow> Inr (v # vs))"

fun join_with :: "string \<Rightarrow> string list \<Rightarrow> string" where
  "join_with sep [] = []"
| "join_with sep [x] = x"
| "join_with sep (x # y # rest) = x @ sep @ join_with sep (y # rest)"

definition csv_header :: string where
  "csv_header = ''Test Name,Timestamp,Mean (ms),Median (ms),Min (ms),Max (ms),P95 (ms),P99 (ms),Std Dev (ms),Iterations''"

definition csv_row :: "(real \<Rightarrow> string) \<Rightarrow> TestResult \<Rightarrow> js_exn + string" where
  "csv_row numberToString result =
    (case sequence (map (toFixed2 numberToString)
            [mean (stats result), median (stats result), min_stat (stats result),
             max_stat (stats result), p95 (stats result), p99 (stats result),
             stdDev (stats result)]) of
       Inl e \<Rightarrow> Inl e
     | Inr cells \<Rightarrow>
         Inr (join_with '','' ([testName result, timestamp result] @ cells @
                               [dec (iterations result)])))"

fun export_loop ::
  "(real \<Rightarrow> string) \<Rightarrow> TestResult list \<Rightarrow> string list \<Rightarrow> js_exn + string list" where
  "export_loop numberToString [] lines = Inr lines"
| "export_loop numberToString (result # rest) lines =
    (case csv_row numberToString result of
       Inl e \<Rightarrow> Inl e
     | Inr row \<Rightarrow> export_loop numberToString rest (lines @ [row]))"

text \<open>
  \<open>writeFileSync\<close> into the results directory at the time \<open>now_ms\<close>: it throws when the
  directory does not exist.
\<close>

definition writeFileSync ::
  "filesystem \<Rightarrow> string \<Rightarrow> file_content \<Rightarrow> int \<Rightarrow> js_exn + filesystem" where
  "writeFileSync fs filename content now_ms =
    (case dir_entries fs of
       None \<Rightarrow> Inl (Error (''ENOENT: '' @ join (RESULTS_DIR fs) filename))
     | Some entries \<Rightarrow>
         Inr (fs\<lparr>dir_entries :=
                   Some (if filename \<in> fst ` set entries
                         then map (\<lambda>e. if fst e = filename then (filename, now_ms) else e) entries
                         else entries @ [(filename, now_ms)]),
                 files := (files fs)(join (RESULTS_DIR fs) filename \<mapsto> content)\<rparr>))"

text \<open>
  \<open>exportToCSV\<close>, at the time whose ISO text is \<open>now_iso\<close>: the path of the file written
  and the file system after the write, or the exception thrown.
\<close>

definition exportToCSV ::
  "(real \<Rightarrow> string) \<Rightarrow> string \<Rightarrow> int \<Rightarrow> filesystem \<Rightarrow> PerformanceReport \<Rightarrow>
   js_exn + string \<times> filesystem" where
  "exportToCSV numberToString now_iso now_ms fs report =
    (case export_loop numberToString (results report) [csv_header] of
       Inl e \<Rightarrow> Inl e
     | Inr lines \<Rightarrow>
         (let csv = join_with [CHR 0x0A] lines;
              filename = testSuite report @ ''_'' @
                map (\<lambda>c. if c = CHR '':'' \<or> c = CHR ''.'' then CHR ''-'' else c) now_iso @ ''.csv''
          in case writeFileSync fs filename (Text csv) now_ms of
               Inl e \<Rightarrow> Inl e
             | Inr fs' \<Rightarrow> Inr (join (RESULTS_DIR fs) filename, fs')))"

declare dec.simps [simp del]

section \<open>Notions of the specification and sample inputs\<close>

text \<open>
  The persisted non-baseline result files of the results directory, the most recently
  modified first.
\<close>

definition is_result_file :: "string \<Rightarrow> bool" where
  "is_result_file nm = (endsWith nm ''.json'' \<and> nm \<noteq> ''baseline.json'')"

definition result_files :: "filesystem \<Rightarrow> (string \<times> int) list \<Rightarrow> file_info list" where
  "result_files fs entries =
     newest_first (map (file_info_of fs) (filter (\<lambda>e. is_result_file (fst e)) entries))"

text \<open>
  A summary all of whose statistics are Numbers (finite or not), the text \<open>toFixed(2)\<close>
  gives for a Number, and the CSV text of a report: the header line and one line per
  result.
\<close>

definition numeric_stats :: "PerformanceStats \<Rightarrow> bool" where
  "numeric_stats s =
     (mean s \<noteq> Undefined \<and> median s \<noteq> Undefined \<and> min_stat s \<noteq> Undefined \<and>
      max_stat s \<noteq> Undefined \<and> p95 s \<noteq> Undefined \<and> p99 s \<noteq> Undefined \<and>
      stdDev s \<noteq> Undefined)"

definition number_text :: "(real \<Rightarrow> string) \<Rightarrow> jsval \<Rightarrow> string" where
  "number_text numberToString v = (case toFixed2 numberToString v of Inr s \<Rightarrow> s | Inl e \<Rightarrow> [])"

definition row_text :: "(real \<Rightarrow> string) \<Rightarrow> TestResult \<Rightarrow> string" where
  "row_text numberToString r =
     join_with '','' ([testName r, timestamp r] @
       map (number_text numberToString)
         [mean (stats r), median (stats r), min_stat (stats r), max_stat (stats r),
          p95 (stats r), p99 (stats r), stdDev (stats r)] @
       [dec (iterations r)])"

definition csv_text :: "(real \<Rightarrow> string) \<Rightarrow> PerformanceReport \<Rightarrow> string" where
  "csv_text numberToString report =
     join_with [CHR 0x0A] (csv_header # map (row_text numberToString) (results report))"

definition csv_path :: "filesystem \<Rightarrow> PerformanceReport \<Rightarrow> string \<Rightarrow> string" where
  "csv_path fs report now_iso =
     join (RESULTS_DIR fs)
       (testSuite report @ ''_'' @
        map (\<lambda>c. if c = CHR '':'' \<or> c = CHR ''.'' then CHR ''-'' else c) now_iso @ ''.csv'')"

definition sample_toString :: "real \<Rightarrow> string" where
  "sample_toString x = ''1e+21''"

text \<open>Sample data for the concrete instances below.\<close>

definition sample_result :: "string \<Rightarrow> jsval \<Rightarrow> TestResult" where
  "sample_result nm m =
     \<lparr>testName = nm, timestamp = ''2025-01-15T10:00:00.000Z'', commit = None, branch = None,
      stats = \<lparr>mean = m, median = Fin 1, min_stat = Fin 1, max_stat = Fin 1,
                p95 = Fin 1, p99 = Fin 1, stdDev = Fin 0\<rparr>,
      iterations = 10\<rparr>"

definition sample_report :: "TestResult list \<Rightarrow> PerformanceReport" where
  "sample_report rs =
     \<lparr>testSuite = ''ipc-performance'', report_timestamp = ''2025-01-15T10:00:00.000Z'',
      environment = \<lparr>node = ''v20.0.0'', platform = ''linux'', arch = ''x64''\<rparr>,
      results = rs\<rparr>"

definition sample_fs :: "(string \<times> int) list \<Rightarrow> PerformanceReport option \<Rightarrow> filesystem" where
  "sample_fs entries baseline_report =
     \<lparr>cwd = ''/repo'', dir_entries = Some entries,
      files = (\<lambda>p. if p = ''/repo/performance-results/baseline.json''
                     then map_option Report baseline_report else None)\<rparr>"

definition three_baseline :: PerformanceReport where
  "three_baseline = sample_report
     [sample_result ''X'' (Fin 2), sample_result ''Y'' (Fin 2), sample_result ''Z'' (Fin 2)]"

definition three_current :: PerformanceReport where
  "three_current = sample_report
     [sample_result ''X'' (Fin 3), sample_result ''Y'' (Fin 2), sample_result ''Z'' (Fin 1),
      sample_result ''W'' (Fin 1)]"

definition sample_comparison :: "string \<Rightarrow> jsval \<Rightarrow> jsval \<Rightarrow> jsval \<Rightarrow> bool \<Rightarrow> bool \<Rightarrow> ComparisonResult" where
  "sample_comparison nm bm cm change reg imp =
     \<lparr>cmp_testName = nm, baseline = stats (sample_result nm bm), current = stats (sample_result nm cm),
      changes = \<lparr>meanChange = change, medianChange = Fin 0, p95Change = Fin 0, p99Change = Fin 0\<rparr>,
      regression = reg, improvement = imp\<rparr>"

definition five_reports :: "(string \<times> int) list" where
  "five_reports =
     [(''baseline.json'', 1), (''ipc_report_1.json'', 10), (''ipc_report_2.json'', 50),
      (''ipc_report_3.json'', 30), (''ipc_report_4.json'', 20), (''ipc_report_5.json'', 40)]"

section \<open>Rounding\<close>

lemma expo_eq:
  assumes "2 powi e \<le> \<bar>x\<bar>" "\<bar>x\<bar> < 2 powi (e + 1)" "- 1022 \<le> e"
  shows "expo x = e"
proof -
  have pos: "0 < \<bar>x\<bar>" using assms(1) by (smt (verit) zero_less_power_int)
  have "\<lfloor>log 2 \<bar>x\<bar>\<rfloor> = e"
    using assms pos powr_real_of_int'[of 2 e] powr_real_of_int'[of 2 "e + 1"]
    by (simp add: floor_log_eq_powr_iff)
  then show ?thesis using assms(3) by (simp add: expo_def)
qed

lemma ulp_eq:
  assumes "2 powi e \<le> \<bar>x\<bar>" "\<bar>x\<bar> < 2 powi (e + 1)" "- 1022 \<le> e"
  shows "ulp x = 2 powi (e - 52)"
  using expo_eq[OF assms] by (simp add: ulp_def)

lemma fl_eval:
  assumes "2 powi e \<le> \<bar>x\<bar>" "\<bar>x\<bar> < 2 powi (e + 1)" "- 1022 \<le> e"
  shows "fl x = (let r = of_int (rte (x / 2 powi (e - 52))) * 2 powi (e - 52) in
     if 2 ^ 1024 \<le> \<bar>r\<bar> then (if 0 < x then PosInf else NegInf) else Fin r)"
proof -
  have "x \<noteq> 0" using assms(1) by (smt (verit) zero_less_power_int abs_zero)
  then show ?thesis by (simp add: fl_def ulp_eq[OF assms])
qed

lemma fl_zero [simp]: "fl 0 = Fin 0"
  by (simp add: fl_def)

lemma rte_bound: "\<bar>of_int (rte y) - y\<bar> \<le> 1 / 2"
  unfolding rte_def Let_def by (auto simp: abs_if) linarith+

lemma rte_of_int: "rte (of_int k) = k"
  by (simp add: rte_def)

lemma rte_nonneg: "0 \<le> y \<Longrightarrow> 0 \<le> rte y"
  unfolding rte_def Let_def by auto

lemma ulp_pos: "0 < ulp x"
  by (simp add: ulp_def)

lemma fl_nonneg: "0 \<le> x \<Longrightarrow> fl x = PosInf \<or> (\<exists>r. fl x = Fin r \<and> 0 \<le> r)"
  using rte_nonneg[of "x / ulp x"] ulp_pos[of x]
  by (auto simp: fl_def Let_def)

lemma fl_rel_error:
  assumes lo: "2 powi (- 1022) \<le> \<bar>x\<bar>" and hi: "\<bar>x\<bar> < 2 ^ 1000"
  shows "\<exists>r. fl x = Fin r \<and> \<bar>r - x\<bar> \<le> \<bar>x\<bar> / 2 ^ 53"
proof -
  define e where "e = \<lfloor>log 2 \<bar>x\<bar>\<rfloor>"
  have pos: "0 < \<bar>x\<bar>" using lo by (smt (verit) zero_less_power_int)
  have e1: "2 powi e \<le> \<bar>x\<bar>" and e2: "\<bar>x\<bar> < 2 powi (e + 1)"
    using pos floor_log_eq_powr_iff[of "\<bar>x\<bar>" 2 e] powr_real_of_int'[of 2 e] powr_real_of_int'[of 2 "e + 1"]
    by (simp_all add: e_def)
  have e3: "- 1022 \<le> e"
  proof (rule ccontr)
    assume "\<not> - 1022 \<le> e"
    then have "e + 1 \<le> - 1022" by simp
    then have "(2::real) powi (e + 1) \<le> 2 powi (- 1022)"
      by (intro power_int_increasing) simp_all
    with e2 lo show False by linarith
  qed
  define q where "q = (2::real) powi (e - 52)"
  have q: "ulp x = q" unfolding q_def by (rule ulp_eq[OF e1 e2 e3])
  have qpos: "0 < q" by (simp add: q_def)
  have qe: "q = 2 powi e / 2 ^ 52"
    by (simp add: q_def power_int_diff)
  then have qle: "q \<le> \<bar>x\<bar> / 2 ^ 52" using e1 by (simp add: divide_right_mono)
  define r where "r = of_int (rte (x / q)) * q"
  have "r - x = (of_int (rte (x / q)) - x / q) * q" using qpos by (simp add: r_def algebra_simps)
  then have "\<bar>r - x\<bar> = \<bar>of_int (rte (x / q)) - x / q\<bar> * q" using qpos by (simp add: abs_mult)
  also have "\<dots> \<le> 1 / 2 * q" using rte_bound[of "x / q"] qpos by (intro mult_right_mono) simp_all
  also have "\<dots> \<le> \<bar>x\<bar> / 2 ^ 53" using qle by simp
  finally have err: "\<bar>r - x\<bar> \<le> \<bar>x\<bar> / 2 ^ 53" .
  have "\<bar>r\<bar> \<le> \<bar>x\<bar> + \<bar>x\<bar> / 2 ^ 53" using err by linarith
  also have "\<dots> \<le> 2 * \<bar>x\<bar>" by simp
  also have "\<dots> < 2 * 2 ^ 1000" using hi by simp
  also have "\<dots> \<le> (2::real) ^ 1024" by simp
  finally have "\<not> 2 ^ 1024 \<le> \<bar>r\<bar>" by simp
  moreover have "x \<noteq> 0" using pos by simp
  ultimately have "fl x = Fin r" by (simp add: fl_def q r_def Let_def)
  with err show ?thesis by blast
qed

lemma fl_int_exact:
  assumes "\<bar>k\<bar> < 2 ^ 53"
  shows "fl (of_int k) = Fin (of_int k)"
proof (cases "k = 0")
  case True then show ?thesis by (simp add: fl_def)
next
  case False
  define x :: real where "x = of_int k"
  define e where "e = \<lfloor>log 2 \<bar>x\<bar>\<rfloor>"
  have pos: "0 < \<bar>x\<bar>" and ge1: "1 \<le> \<bar>x\<bar>" using False by (simp_all add: x_def)
  have lt: "\<bar>x\<bar> < 2 ^ 53" using assms unfolding x_def
    by (metis of_int_abs of_int_less_numeral_power_cancel_iff)
  have e1: "2 powi e \<le> \<bar>x\<bar>" and e2: "\<bar>x\<bar> < 2 powi (e + 1)"
    using pos floor_log_eq_powr_iff[of "\<bar>x\<bar>" 2 e] powr_real_of_int'[of 2 e] powr_real_of_int'[of 2 "e + 1"]
    by (simp_all add: e_def)
  have e0: "0 \<le> e" using ge1 by (simp add: e_def)
  have e52: "e \<le> 52"
  proof (rule ccontr)
    assume "\<not> e \<le> 52"
    then have "53 \<le> e" by simp
    then have "(2::real) powi 53 \<le> 2 powi e" by (intro power_int_increasing) simp_all
    with e1 lt show False by simp
  qed
  define m where "m = nat (52 - e)"
  have q: "ulp x = 1 / 2 ^ m"
    using ulp_eq[OF e1 e2] e0 e52 by (simp add: m_def power_int_def nat_diff_distrib' field_simps)
  have "x / ulp x = of_int (k * 2 ^ m)" unfolding q by (simp add: x_def)
  then have "rte (x / ulp x) = k * 2 ^ m" by (simp only: rte_of_int)
  then have r: "of_int (rte (x / ulp x)) * ulp x = x" unfolding q by (simp add: x_def)
  have "(2::real) ^ 53 \<le> 2 ^ 1024" by simp
  then have "\<not> (2::real) ^ 1024 \<le> \<bar>x\<bar>" using lt by linarith
  then have "fl x = Fin x" using pos by (simp add: fl_def r Let_def)
  then show ?thesis by (simp add: x_def)
qed

lemma js_index_Nil [simp]: "js_index [] v = Undefined"
  by (cases v) simp_all

lemma calculateStats_Nil:
  "calculateStats [] = \<lparr>mean = NaN, median = Undefined, min_stat = Undefined,
      max_stat = Undefined, p95 = Undefined, p99 = Undefined, stdDev = NaN\<rparr>"
  by (simp add: calculateStats_def)

section \<open>The positions of the order statistics\<close>

lemma rte_near:
  assumes "\<bar>y - of_int K\<bar> < 1 / 2"
  shows "rte y = K"
proof -
  have "\<lfloor>y\<rfloor> = K \<or> \<lfloor>y\<rfloor> = K - 1" using assms by linarith
  then show ?thesis
  proof
    assume f: "\<lfloor>y\<rfloor> = K"
    then have "y - of_int \<lfloor>y\<rfloor> < 1 / 2" using assms by linarith
    then show ?thesis by (simp add: rte_def Let_def f)
  next
    assume f: "\<lfloor>y\<rfloor> = K - 1"
    then have "1 / 2 < y - of_int \<lfloor>y\<rfloor>" using assms by (simp add: abs_if split: if_splits)
    then show ?thesis using f by (simp add: rte_def Let_def)
  qed
qed

lemma fl_snap:
  assumes lo: "1 / 2 \<le> x" and hi: "x < 2 ^ 33"
      and near: "\<bar>x - of_int K / 2\<bar> < x / 2 ^ 54"
  shows "fl x = Fin (of_int K / 2)"
proof -
  define e where "e = \<lfloor>log 2 \<bar>x\<bar>\<rfloor>"
  have pos: "0 < x" and ax: "\<bar>x\<bar> = x" using lo by simp_all
  have e1: "2 powi e \<le> x" and e2: "x < 2 powi (e + 1)"
    using pos floor_log_eq_powr_iff[of "\<bar>x\<bar>" 2 e] powr_real_of_int'[of 2 e]
      powr_real_of_int'[of 2 "e + 1"]
    by (simp_all add: e_def ax)
  have elo: "- 1 \<le> e"
  proof (rule ccontr)
    assume "\<not> - 1 \<le> e"
    then have "e + 1 \<le> - 1" by simp
    then have "(2::real) powi (e + 1) \<le> 2 powi (- 1)" by (intro power_int_increasing) simp_all
    with e2 lo show False by (simp add: power_int_minus)
  qed
  have ehi: "e \<le> 32"
  proof (rule ccontr)
    assume "\<not> e \<le> 32"
    then have "33 \<le> e" by simp
    then have "(2::real) powi 33 \<le> 2 powi e" by (intro power_int_increasing) simp_all
    with e1 hi show False by simp
  qed
  define m where "m = nat (51 - e)"
  have m: "int m = 51 - e" using ehi by (simp add: m_def)
  have e3: "- 1022 \<le> e" using elo by simp
  have q: "ulp x = 1 / 2 ^ (Suc m)"
  proof -
    have "ulp x = 2 powi (e - 52)" using ulp_eq[of e x] e1 e2 e3 by (simp add: ax)
    moreover have "e - 52 = - int (Suc m)" using m by simp
    moreover have "(2::real) powi (- int (Suc m)) = 1 / 2 ^ Suc m"
      by (simp only: power_int_minus power_int_of_nat inverse_eq_divide)
    ultimately show ?thesis by (simp only:)
  qed
  have p: "2 powi (e + 1) = (2::real) ^ 52 / 2 ^ m"
  proof -
    have "e + 1 = 52 - int m" using m by simp
    then show ?thesis by (simp add: power_int_diff)
  qed
  have "x < 2 ^ 52 / 2 ^ m" using e2 unfolding p .
  then have "x * 2 ^ m < 2 ^ 52" by (simp add: pos_less_divide_eq)
  then have xq: "x / 2 ^ 54 * 2 ^ Suc m < 1 / 2" by simp
  let ?M = "K * 2 ^ m"
  have "x / ulp x - of_int ?M = (x - of_int K / 2) * 2 ^ Suc m"
    by (simp add: q field_simps)
  then have "\<bar>x / ulp x - of_int ?M\<bar> = \<bar>x - of_int K / 2\<bar> * 2 ^ Suc m"
    by (simp add: abs_mult del: power_Suc)
  also have "\<dots> < x / 2 ^ 54 * 2 ^ Suc m"
    using near by (intro mult_strict_right_mono) simp_all
  also have "\<dots> < 1 / 2" by (rule xq)
  finally have "rte (x / ulp x) = ?M" by (rule rte_near)
  then have r: "of_int (rte (x / ulp x)) * ulp x = of_int K / 2"
    by (simp add: q)
  have "\<bar>of_int K / 2\<bar> \<le> x + x / 2 ^ 54" using near pos by linarith
  also have "\<dots> \<le> 2 * x" using pos by simp
  also have "\<dots> < 2 * 2 ^ 33" using hi by simp
  also have "\<dots> \<le> (2::real) ^ 1024" by simp
  finally have "\<not> (2::real) ^ 1024 \<le> \<bar>of_int K / 2\<bar>" by simp
  then show ?thesis using pos by (simp add: fl_def Let_def r)
qed

text \<open>
  The literals \<open>0.95\<close> and \<open>0.99\<close> denote doubles slightly below the fractions. The
  product with a length below \<open>2^32\<close>, rounded and floored, is nevertheless the floor of
  the exact fraction of the length.
\<close>

lemma literal_errors:
  "d0_95 = 95 / 100 - 1 / (5 * 2 ^ 52)"
  "d0_99 = 99 / 100 - 1 / (25 * 2 ^ 52)"
  by (simp_all add: d0_95_def d0_99_def)

lemma index_exact:
  assumes n1: "1 \<le> n" and n32: "n < 2 ^ 32"
      and c: "c = real a / 100 - d" and d0: "0 \<le> d" and d1: "d * 2 ^ 54 < c"
      and d2: "d \<le> 1 / 2 ^ 54" and c1: "1 / 2 \<le> c" and c2: "c \<le> 1"
  shows "Math_floor (fl (real n * c)) = Fin (real (a * n div 100))"
proof -
  define x where "x = real n * c"
  define k where "k = a * n div 100"
  define r where "r = a * n mod 100"
  have rn: "1 \<le> real n" using n1 by simp
  have "real n < 2 ^ 32" using n32 by simp
  then have rn32: "real n \<le> 2 ^ 32" by simp
  have "real (a * n) = real (100 * k + r)" by (simp add: k_def r_def)
  then have an: "real a * real n = 100 * real k + real r" by simp
  have xk: "x = real k + real r / 100 - real n * d"
    using an by (simp add: x_def c algebra_simps)
  have lo: "1 / 2 \<le> x"
  proof -
    have "1 / 2 \<le> 1 * c" using c1 by simp
    also have "\<dots> \<le> real n * c" using rn c1 by (intro mult_right_mono) simp_all
    finally show ?thesis by (simp add: x_def)
  qed
  have xn: "x \<le> real n"
  proof -
    have "real n * c \<le> real n * 1" using c2 rn by (intro mult_left_mono) simp_all
    then show ?thesis by (simp add: x_def)
  qed
  have "(2::real) ^ 32 < 2 ^ 33" by simp
  then have hi: "x < 2 ^ 33" using xn rn32 by linarith
  have rlt: "r < 100" by (simp add: r_def)
  show ?thesis
  proof (cases "r = 0")
    case True
    have "real n * (d * 2 ^ 54) < real n * c" using d1 rn by (intro mult_strict_left_mono) simp_all
    then have "real n * d < x / 2 ^ 54" by (simp add: x_def field_simps)
    moreover have "0 \<le> real n * d" using d0 by simp
    moreover have "x - of_int (2 * int k) / 2 = - (real n * d)" using True by (simp add: xk)
    ultimately have "\<bar>x - of_int (2 * int k) / 2\<bar> < x / 2 ^ 54" by simp
    then have "fl x = Fin (of_int (2 * int k) / 2)" by (rule fl_snap[OF lo hi])
    then have "fl x = Fin (real k)" by simp
    then show ?thesis by (simp add: x_def k_def)
  next
    case False
    then have r1: "1 \<le> real r" by simp
    have r99: "real r \<le> 99" using rlt by simp
    have "(2::real) powi (- 1022) \<le> 1 / 2" by (simp add: power_int_minus field_simps)
    then have lo': "2 powi (- 1022) \<le> \<bar>x\<bar>" using lo by linarith
    have "(2::real) ^ 33 \<le> 2 ^ 1000" by simp
    then have hi': "\<bar>x\<bar> < 2 ^ 1000" using hi lo by linarith
    obtain y where y: "fl x = Fin y" "\<bar>y - x\<bar> \<le> \<bar>x\<bar> / 2 ^ 53"
      using fl_rel_error[OF lo' hi'] by blast
    have ax: "\<bar>x\<bar> = x" using lo by simp
    have "x / 2 ^ 53 \<le> 2 ^ 32 / 2 ^ 53" using xn rn32 by (simp add: divide_right_mono)
    then have e1: "x / 2 ^ 53 \<le> 1 / 1000" by simp
    have "real n * d \<le> 2 ^ 32 * (1 / 2 ^ 54)"
      using rn32 d2 d0 by (intro mult_mono) simp_all
    then have e2: "real n * d \<le> 1 / 1000" by simp
    have e3: "0 \<le> real n * d" using d0 by simp
    have yb: "\<bar>y - x\<bar> \<le> x / 2 ^ 53" using y(2) by (simp only: ax)
    have "real k \<le> y" using yb e1 e2 r1 xk by linarith
    moreover have "y < real k + 1" using yb e1 e3 r99 xk by linarith
    ultimately have "\<lfloor>y\<rfloor> = int k" by (simp add: floor_unique)
    then show ?thesis using y(1) by (simp add: x_def k_def)
  qed
qed

lemma p95_index:
  assumes "1 \<le> n" and "n < 2 ^ 32"
  shows "Math_floor (js_mul (Fin (real n)) (Fin d0_95)) = Fin (real (95 * n div 100))"
  using index_exact[OF assms, of d0_95 95 "1 / (5 * 2 ^ 52)"]
  by (simp add: literal_errors(1))

lemma p99_index:
  assumes "1 \<le> n" and "n < 2 ^ 32"
  shows "Math_floor (js_mul (Fin (real n)) (Fin d0_99)) = Fin (real (99 * n div 100))"
  using index_exact[OF assms, of d0_99 99 "1 / (25 * 2 ^ 52)"]
  by (simp add: literal_errors(2))

lemma half_index:
  assumes "1 \<le> n" and "n < 2 ^ 32"
  shows "Math_floor (js_div (Fin (real n)) (Fin 2)) = Fin (real (n div 2))"
proof -
  have lo: "1 / 2 \<le> real n / 2" using assms(1) by simp
  have "real n < 2 ^ 32" using assms(2) by simp
  then have hi: "real n / 2 < 2 ^ 33" by simp
  have "\<bar>real n / 2 - of_int (int n) / 2\<bar> < real n / 2 / 2 ^ 54" using assms(1) by simp
  then have "fl (real n / 2) = Fin (of_int (int n) / 2)" by (rule fl_snap[OF lo hi])
  moreover have "\<lfloor>real n / 2\<rfloor> = int (n div 2)"
    using floor_divide_of_nat_eq[of n 2, where ?'a = real] by simp
  ultimately show ?thesis by simp
qed

lemma positions_ordered:
  fixes n :: nat
  assumes "1 \<le> n"
  shows "n div 2 \<le> 95 * n div 100" "95 * n div 100 \<le> 99 * n div 100" "99 * n div 100 \<le> n - 1"
  using assms by arith+

lemma length_minus_one:
  assumes "1 \<le> n" "n < 2 ^ 32"
  shows "js_sub (Fin (real n)) (Fin 1) = Fin (real (n - 1))"
proof -
  have "(2::nat) ^ 32 \<le> 2 ^ 53" by simp
  then have "n < 2 ^ 53" using assms(2) by (rule less_le_trans[rotated])
  then have "int n < 2 ^ 53" by simp
  moreover have "0 \<le> int n - 1" using assms(1) by simp
  ultimately have "\<bar>int n - 1\<bar> < 2 ^ 53" by (simp only: abs_of_nonneg)
  then have "fl (of_int (int n - 1)) = Fin (of_int (int n - 1))" by (rule fl_int_exact)
  moreover have "real_of_int (int n - 1) = real n + - 1" by simp
  moreover have "real_of_int (int n - 1) = real (n - 1)" using assms(1) by (simp add: of_nat_diff)
  ultimately have "fl (real n + - 1) = Fin (real (n - 1))" by (simp only:)
  then show ?thesis by (simp add: js_sub_def)
qed

lemma js_index_int:
  assumes "0 \<le> k" "k < int (length xs)"
  shows "js_index xs (Fin (of_int k)) = Fin (xs ! nat k)"
  using assms by simp

lemma js_index_nat:
  assumes "i < length xs"
  shows "js_index xs (Fin (real i)) = Fin (xs ! i)"
  using assms js_index_int[of "int i" xs] by simp

declare js_index.simps [simp del]

lemma mean_calculateStats:
  "mean (calculateStats ds) = js_div (number_sum (map Fin (sort ds))) (Fin (real (length ds)))"
  by (simp add: calculateStats_def Let_def number_sum_def foldl_map)

lemma stdDev_calculateStats:
  "stdDev (calculateStats ds) =
     Math_sqrt (js_div (number_sum (map (\<lambda>v. Math_pow2 (js_sub (Fin v) (mean (calculateStats ds)))) (sort ds)))
        (Fin (real (length ds))))"
  by (simp add: calculateStats_def Let_def number_sum_def foldl_map)

lemma median_calculateStats_raw:
  "median (calculateStats ds) =
     js_index (sort ds) (Math_floor (js_div (Fin (real (length ds))) (Fin 2)))"
  by (simp add: calculateStats_def Let_def)

lemma min_calculateStats_raw: "min_stat (calculateStats ds) = js_index (sort ds) (Fin 0)"
  by (simp add: calculateStats_def Let_def)

lemma max_calculateStats_raw:
  "max_stat (calculateStats ds) = js_index (sort ds) (js_sub (Fin (real (length ds))) (Fin 1))"
  by (simp add: calculateStats_def Let_def)

lemma p95_calculateStats_raw:
  "p95 (calculateStats ds) =
     js_index (sort ds) (Math_floor (js_mul (Fin (real (length ds))) (Fin d0_95)))"
  by (simp add: calculateStats_def Let_def)

lemma p99_calculateStats_raw:
  "p99 (calculateStats ds) =
     js_index (sort ds) (Math_floor (js_mul (Fin (real (length ds))) (Fin d0_99)))"
  by (simp add: calculateStats_def Let_def)

lemma order_stats_calculateStats:
  assumes ne: "ds \<noteq> []" and len: "length ds < 2 ^ 32"
  shows "median (calculateStats ds) = Fin (sort ds ! (length ds div 2))"
    and "min_stat (calculateStats ds) = Fin (sort ds ! 0)"
    and "max_stat (calculateStats ds) = Fin (sort ds ! (length ds - 1))"
    and "p95 (calculateStats ds) = Fin (sort ds ! (95 * length ds div 100))"
    and "p99 (calculateStats ds) = Fin (sort ds ! (99 * length ds div 100))"
proof -
  have n1: "1 \<le> length ds" using ne by (cases ds) simp_all
  note po = positions_ordered[OF n1]
  have lt: "length ds div 2 < length (sort ds)" "95 * length ds div 100 < length (sort ds)"
    "99 * length ds div 100 < length (sort ds)" "0 < length (sort ds)"
    "length ds - 1 < length (sort ds)"
    using po n1 ne by simp_all
  show "median (calculateStats ds) = Fin (sort ds ! (length ds div 2))"
    unfolding median_calculateStats_raw half_index[OF n1 len] by (rule js_index_nat[OF lt(1)])
  show "p95 (calculateStats ds) = Fin (sort ds ! (95 * length ds div 100))"
    unfolding p95_calculateStats_raw p95_index[OF n1 len] by (rule js_index_nat[OF lt(2)])
  show "p99 (calculateStats ds) = Fin (sort ds ! (99 * length ds div 100))"
    unfolding p99_calculateStats_raw p99_index[OF n1 len] by (rule js_index_nat[OF lt(3)])
  show "min_stat (calculateStats ds) = Fin (sort ds ! 0)"
    unfolding min_calculateStats_raw using js_index_nat[OF lt(4)] by simp
  show "max_stat (calculateStats ds) = Fin (sort ds ! (length ds - 1))"
    unfolding max_calculateStats_raw length_minus_one[OF n1 len] by (rule js_index_nat[OF lt(5)])
qed

lemma calculateStats_eq_spec:
  assumes ne: "ds \<noteq> []" and len: "length ds < 2 ^ 32"
  shows "calculateStats ds = summarize_spec ds"
proof (rule PerformanceStats.equality)
  show m: "mean (calculateStats ds) = mean (summarize_spec ds)"
    unfolding mean_calculateStats by (simp add: summarize_spec_def Let_def)
  show "stdDev (calculateStats ds) = stdDev (summarize_spec ds)"
    unfolding stdDev_calculateStats mean_calculateStats by (simp add: summarize_spec_def Let_def)
  show "median (calculateStats ds) = median (summarize_spec ds)"
    unfolding order_stats_calculateStats(1)[OF ne len] by (simp add: summarize_spec_def Let_def)
  show "min_stat (calculateStats ds) = min_stat (summarize_spec ds)"
    unfolding order_stats_calculateStats(2)[OF ne len] by (simp add: summarize_spec_def Let_def)
  show "max_stat (calculateStats ds) = max_stat (summarize_spec ds)"
    unfolding order_stats_calculateStats(3)[OF ne len] by (simp add: summarize_spec_def Let_def)
  show "p95 (calculateStats ds) = p95 (summarize_spec ds)"
    unfolding order_stats_calculateStats(4)[OF ne len] by (simp add: summarize_spec_def Let_def)
  show "p99 (calculateStats ds) = p99 (summarize_spec ds)"
    unfolding order_stats_calculateStats(5)[OF ne len] by (simp add: summarize_spec_def Let_def)
  show "PerformanceStats.more (calculateStats ds) = PerformanceStats.more (summarize_spec ds)"
    by simp
qed

section \<open>Bounds on the summary\<close>

lemma fl_is_number: "js_le (fl x) (fl x)"
  by (simp add: fl_def Let_def)

lemma fl_nonneg_le: "0 \<le> x \<Longrightarrow> js_le (Fin 0) (fl x)"
  using fl_nonneg[of x] by auto

lemma js_add_Fin_number: "js_le a a \<Longrightarrow> js_le (js_add a (Fin y)) (js_add a (Fin y))"
  by (cases a) (simp_all add: fl_is_number)

lemma number_sum_is_number:
  "js_le a a \<Longrightarrow> js_le (foldl js_add a (map Fin xs)) (foldl js_add a (map Fin xs))"
  by (induction xs arbitrary: a) (simp_all add: js_add_Fin_number)

lemma js_div_number: "js_le a a \<Longrightarrow> 0 < n \<Longrightarrow> js_le (js_div a (Fin n)) (js_div a (Fin n))"
  by (cases a) (simp_all add: fl_is_number inf_of_sign_def)

lemma pow2_deviation_nonneg: "js_le m m \<Longrightarrow> js_le (Fin 0) (Math_pow2 (js_sub (Fin v) m))"
proof (cases m)
  case (Fin y)
  have "fl (v + - y) = PosInf \<or> fl (v + - y) = NegInf \<or> (\<exists>r. fl (v + - y) = Fin r)"
    by (simp add: fl_def Let_def)
  then show ?thesis using Fin by (auto simp: js_sub_def fl_nonneg_le)
qed (simp_all add: js_sub_def)

lemma js_add_nonneg:
  "js_le (Fin 0) a \<Longrightarrow> js_le (Fin 0) b \<Longrightarrow> js_le (Fin 0) (js_add a b)"
  by (cases a; cases b) (simp_all add: fl_nonneg_le)

lemma foldl_js_add_nonneg:
  "js_le (Fin 0) a \<Longrightarrow> (\<And>v. v \<in> set vs \<Longrightarrow> js_le (Fin 0) v) \<Longrightarrow> js_le (Fin 0) (foldl js_add a vs)"
  by (induction vs arbitrary: a) (simp_all add: js_add_nonneg)

lemma js_div_nonneg: "js_le (Fin 0) a \<Longrightarrow> 0 < n \<Longrightarrow> js_le (Fin 0) (js_div a (Fin n))"
  by (cases a) (simp_all add: fl_nonneg_le inf_of_sign_def)

lemma Math_sqrt_nonneg: "js_le (Fin 0) a \<Longrightarrow> js_le (Fin 0) (Math_sqrt a)"
  by (cases a) (simp_all add: fl_nonneg_le)

lemma stdDev_nonneg:
  assumes "ds \<noteq> []"
  shows "js_le (Fin 0) (stdDev (calculateStats ds))"
proof -
  let ?n = "real (length ds)"
  have n: "0 < ?n" using assms by simp
  let ?m = "mean (calculateStats ds)"
  have "js_le (number_sum (map Fin (sort ds))) (number_sum (map Fin (sort ds)))"
    unfolding number_sum_def by (rule number_sum_is_number) simp
  then have m: "js_le ?m ?m" unfolding mean_calculateStats using n by (rule js_div_number)
  have "js_le (Fin 0) (number_sum (map (\<lambda>v. Math_pow2 (js_sub (Fin v) ?m)) (sort ds)))"
    unfolding number_sum_def
    by (rule foldl_js_add_nonneg) (auto simp: pow2_deviation_nonneg[OF m])
  then have "js_le (Fin 0) (js_div (number_sum (map (\<lambda>v. Math_pow2 (js_sub (Fin v) ?m)) (sort ds))) (Fin ?n))"
    using n by (rule js_div_nonneg)
  then show ?thesis unfolding stdDev_calculateStats by (rule Math_sqrt_nonneg)
qed

lemma order_chain:
  assumes ne: "ds \<noteq> []" and len: "length ds < 2 ^ 32"
  shows "js_le (min_stat (calculateStats ds)) (median (calculateStats ds))"
    and "js_le (median (calculateStats ds)) (p95 (calculateStats ds))"
    and "js_le (p95 (calculateStats ds)) (p99 (calculateStats ds))"
    and "js_le (p99 (calculateStats ds)) (max_stat (calculateStats ds))"
proof -
  have n1: "1 \<le> length ds" using ne by (cases ds) simp_all
  note po = positions_ordered[OF n1]
  note os = order_stats_calculateStats[OF ne len]
  have srt: "sorted (sort ds)" by simp
  have b: "length ds - 1 < length (sort ds)" "99 * length ds div 100 < length (sort ds)"
    "95 * length ds div 100 < length (sort ds)" "length ds div 2 < length (sort ds)"
    using po n1 ne by simp_all
  show "js_le (min_stat (calculateStats ds)) (median (calculateStats ds))"
    unfolding os using sorted_nth_mono[OF srt _ b(4), of 0] by simp
  show "js_le (median (calculateStats ds)) (p95 (calculateStats ds))"
    unfolding os using sorted_nth_mono[OF srt po(1) b(3)] by simp
  show "js_le (p95 (calculateStats ds)) (p99 (calculateStats ds))"
    unfolding os using sorted_nth_mono[OF srt po(2) b(2)] by simp
  show "js_le (p99 (calculateStats ds)) (max_stat (calculateStats ds))"
    unfolding os using sorted_nth_mono[OF srt po(3) b(1)] by simp
qed

lemma sum_list_bounds:
  fixes xs :: "real list"
  assumes "\<And>x. x \<in> set xs \<Longrightarrow> lo \<le> x" "\<And>x. x \<in> set xs \<Longrightarrow> x \<le> hi"
  shows "lo * real (length xs) \<le> sum_list xs \<and> sum_list xs \<le> hi * real (length xs)"
  using assms by (induction xs) (auto simp: algebra_simps intro: add_mono)

lemma exact_mean_bounds:
  assumes ne: "ds \<noteq> []"
  shows "sort ds ! 0 \<le> sum_list ds / real (length ds)"
    and "sum_list ds / real (length ds) \<le> sort ds ! (length ds - 1)"
proof -
  let ?s = "sort ds"
  have n: "0 < real (length ds)" using ne by simp
  have srt: "sorted ?s" by simp
  have l: "length ?s = length ds" by simp
  have lo: "?s ! 0 \<le> x" if "x \<in> set ds" for x
  proof -
    from that have "x \<in> set ?s" by simp
    then obtain i where "i < length ?s" "?s ! i = x" unfolding in_set_conv_nth by blast
    then show ?thesis using sorted_nth_mono[OF srt, of 0 i] by simp
  qed
  have hi: "x \<le> ?s ! (length ds - 1)" if "x \<in> set ds" for x
  proof -
    from that have "x \<in> set ?s" by simp
    then obtain i where i: "i < length ?s" "?s ! i = x" unfolding in_set_conv_nth by blast
    then have "i \<le> length ds - 1" "length ds - 1 < length ?s" by simp_all
    then show ?thesis using sorted_nth_mono[OF srt, of i "length ds - 1"] i by simp
  qed
  have b: "?s ! 0 * real (length ds) \<le> sum_list ds" "sum_list ds \<le> ?s ! (length ds - 1) * real (length ds)"
    using sum_list_bounds[of ds "?s ! 0" "?s ! (length ds - 1)"] lo hi by blast+
  show "?s ! 0 \<le> sum_list ds / real (length ds)" using b(1) n by (simp add: field_simps)
  show "sum_list ds / real (length ds) \<le> ?s ! (length ds - 1)" using b(2) n by (simp add: field_simps)
qed

lemma calculateStats_perm:
  assumes "mset ds = mset ds'"
  shows "calculateStats ds = calculateStats ds'"
proof -
  have "sort ds = sort ds'"
    using assms by (intro properties_for_sort) simp_all
  then show ?thesis by (simp add: calculateStats_def)
qed

lemma calculateStats_single:
  assumes "fl v = Fin v"
  shows "calculateStats [v] = \<lparr>mean = Fin v, median = Fin v, min_stat = Fin v, max_stat = Fin v,
           p95 = Fin v, p99 = Fin v, stdDev = Fin 0\<rparr>"
proof (rule PerformanceStats.equality)
  have ne: "[v] \<noteq> []" and len: "length [v] < 2 ^ 32" by simp_all
  note os = order_stats_calculateStats[OF ne len]
  show m: "mean (calculateStats [v]) = mean \<lparr>mean = Fin v, median = Fin v, min_stat = Fin v, max_stat = Fin v,
           p95 = Fin v, p99 = Fin v, stdDev = Fin 0\<rparr>"
    unfolding mean_calculateStats using assms by (simp add: number_sum_def)
  then have m': "mean (calculateStats [v]) = Fin v" by simp
  show "stdDev (calculateStats [v]) = stdDev \<lparr>mean = Fin v, median = Fin v, min_stat = Fin v, max_stat = Fin v,
           p95 = Fin v, p99 = Fin v, stdDev = Fin 0\<rparr>"
    unfolding stdDev_calculateStats m' by (simp add: number_sum_def js_sub_def)
  show "median (calculateStats [v]) = median \<lparr>mean = Fin v, median = Fin v, min_stat = Fin v, max_stat = Fin v,
           p95 = Fin v, p99 = Fin v, stdDev = Fin 0\<rparr>"
    unfolding os(1) by simp
  show "min_stat (calculateStats [v]) = min_stat \<lparr>mean = Fin v, median = Fin v, min_stat = Fin v, max_stat = Fin v,
           p95 = Fin v, p99 = Fin v, stdDev = Fin 0\<rparr>"
    unfolding os(2) by simp
  show "max_stat (calculateStats [v]) = max_stat \<lparr>mean = Fin v, median = Fin v, min_stat = Fin v, max_stat = Fin v,
           p95 = Fin v, p99 = Fin v, stdDev = Fin 0\<rparr>"
    unfolding os(3) by simp
  show "p95 (calculateStats [v]) = p95 \<lparr>mean = Fin v, median = Fin v, min_stat = Fin v, max_stat = Fin v,
           p95 = Fin v, p99 = Fin v, stdDev = Fin 0\<rparr>"
    unfolding os(4) by simp
  show "p99 (calculateStats [v]) = p99 \<lparr>mean = Fin v, median = Fin v, min_stat = Fin v, max_stat = Fin v,
           p95 = Fin v, p99 = Fin v, stdDev = Fin 0\<rparr>"
    unfolding os(5) by simp
qed simp

section \<open>The comparison loop\<close>

lemma compare_loop_char:
  "compare_loop rt it bl cs (w, acc) =
    (w @ map (\<lambda>c. ''No baseline found for test: '' @ testName c)
           (filter (\<lambda>c. find (\<lambda>r. testName r = testName c) bl = None) cs),
     acc @ List.map_filter
       (\<lambda>c. map_option (\<lambda>b. compare_pair rt it b c) (find (\<lambda>r. testName r = testName c) bl)) cs)"
  by (induction cs arbitrary: w acc) (simp_all add: map_filter_simps split: option.splits)

lemma find_testName_None:
  "(find (\<lambda>r. testName r = n) bl = None) = (n \<notin> testName ` set bl)"
  by (auto simp: find_None_iff)

lemma cmp_testName_compare_pair [simp]: "cmp_testName (compare_pair rt it b c) = testName c"
  by (simp add: compare_pair_def Let_def)

lemma compared_names:
  "map cmp_testName (List.map_filter
       (\<lambda>c. map_option (\<lambda>b. compare_pair rt it b c) (find (\<lambda>r. testName r = testName c) bl)) cs)
   = filter (\<lambda>n. n \<in> testName ` set bl) (map testName cs)"
proof (induction cs)
  case Nil
  then show ?case by (simp add: map_filter_simps)
next
  case (Cons c cs)
  show ?case
  proof (cases "find (\<lambda>r. testName r = testName c) bl")
    case None
    then have "testName c \<notin> testName ` set bl" by (simp add: find_testName_None)
    then show ?thesis using Cons None by (simp add: map_filter_simps)
  next
    case (Some b)
    then have "testName c \<in> testName ` set bl"
      using find_testName_None[of "testName c" bl] by simp
    then show ?thesis using Cons Some by (simp add: map_filter_simps)
  qed
qed

lemma compared_elements:
  assumes "x \<in> set (List.map_filter
       (\<lambda>c. map_option (\<lambda>b. compare_pair rt it b c) (find (\<lambda>r. testName r = testName c) bl)) cs)"
  shows "\<exists>b\<in>set bl. \<exists>c\<in>set cs. testName b = testName c \<and> x = compare_pair rt it b c"
proof -
  from assms obtain c where c: "c \<in> set cs"
      "map_option (\<lambda>b. compare_pair rt it b c) (find (\<lambda>r. testName r = testName c) bl) = Some x"
    by (auto simp: map_filter_def)
  then obtain b where b: "find (\<lambda>r. testName r = testName c) bl = Some b" "x = compare_pair rt it b c"
    by auto
  from b(1) have "b \<in> set bl" "testName b = testName c"
    by (auto simp: find_Some_iff)
  with c(1) b(2) show ?thesis by blast
qed

lemma not_both_flags:
  assumes "js_le (Fin 0) t"
  shows "\<not> (js_gt m t \<and> js_lt m (js_neg t))"
  using assms by (cases m; cases t) (simp_all add: js_gt_def)

lemma compare_pair_flags:
  "regression (compare_pair rt it b c) = js_gt (meanChange (changes (compare_pair rt it b c))) rt"
  "improvement (compare_pair rt it b c) = js_lt (meanChange (changes (compare_pair rt it b c))) (js_neg it)"
  by (simp_all add: compare_pair_def Let_def)

lemma compare_pair_changes:
  "meanChange (changes (compare_pair rt it b c)) =
     js_div (js_sub (mean (stats c)) (mean (stats b))) (mean (stats b))"
  "medianChange (changes (compare_pair rt it b c)) =
     js_div (js_sub (median (stats c)) (median (stats b))) (median (stats b))"
  "p95Change (changes (compare_pair rt it b c)) =
     js_div (js_sub (p95 (stats c)) (p95 (stats b))) (p95 (stats b))"
  "p99Change (changes (compare_pair rt it b c)) =
     js_div (js_sub (p99 (stats c)) (p99 (stats b))) (p99 (stats b))"
  "baseline (compare_pair rt it b c) = stats b"
  "current (compare_pair rt it b c) = stats c"
  by (simp_all add: compare_pair_def Let_def)

lemma three_way_count:
  assumes "\<And>x. x \<in> set xs \<Longrightarrow> \<not> (P x \<and> Q x)"
  shows "length (filter P xs) + length (filter Q xs) + length (filter (\<lambda>x. \<not> P x \<and> \<not> Q x) xs)
         = length xs"
  using assms by (induction xs) auto

lemma compareWithBaseline_Some:
  assumes "loadBaseline fs = Some b"
  shows "compareWithBaseline fs c t =
    (map (\<lambda>r. ''No baseline found for test: '' @ testName r)
           (filter (\<lambda>r. testName r \<notin> testName ` set (results b)) (results c)),
     compare_spec t (results b) (results c))"
  using assms by (simp add: compareWithBaseline_def compare_loop_char compare_spec_def find_testName_None)

lemma compareReports_char:
  "compareReports b c =
    (map (\<lambda>r. ''No baseline found for test: '' @ testName r)
           (filter (\<lambda>r. testName r \<notin> testName ` set (results b)) (results c)),
     compare_spec (Fin d0_1) (results b) (results c))"
  by (simp add: compareReports_def compare_loop_char compare_spec_def find_testName_None
      REGRESSION_THRESHOLD_def IMPROVEMENT_THRESHOLD_def)

lemma compareWithBaseline_elements:
  assumes "x \<in> set (snd (compareWithBaseline fs c t))"
  shows "\<exists>b cr. x = compare_pair t t b cr"
proof (cases "loadBaseline fs")
  case None
  then show ?thesis using assms by (simp add: compareWithBaseline_def)
next
  case (Some b)
  then show ?thesis using assms compared_elements[of x t t "results b" "results c"]
    by (auto simp: compareWithBaseline_Some compare_spec_def)
qed

lemma compareReports_elements:
  assumes "x \<in> set (snd (compareReports b c))"
  shows "\<exists>br cr. x = compare_pair (Fin d0_1) (Fin d0_1) br cr"
  using assms compared_elements[of x "Fin d0_1" "Fin d0_1" "results b" "results c"]
  by (auto simp: compareReports_char compare_spec_def)

lemma equal_means_change:
  assumes "m \<noteq> 0"
  shows "js_div (js_sub (Fin m) (Fin m)) (Fin m) = Fin 0"
  using assms by (simp add: js_sub_def)

section \<open>The latest report\<close>

lemma endsWith_last:
  assumes "endsWith s suf" "suf \<noteq> []"
  shows "last s = last suf"
proof -
  from assms have l: "length suf \<le> length s" and d: "drop (length s - length suf) s = suf"
    by (simp_all add: endsWith_def)
  from assms(2) l have "length s - length suf < length s" by (cases suf) simp_all
  then have "last (drop (length s - length suf) s) = last s" by (rule last_drop)
  with d show ?thesis by simp
qed

lemma report_filter_never:
  "\<not> (endsWith s ''_report_'' \<and> endsWith s ''.json'')"
proof
  assume a: "endsWith s ''_report_'' \<and> endsWith s ''.json''"
  then have "last s = last ''_report_''" "last s = last ''.json''"
    using endsWith_last[of s "''_report_''"] endsWith_last[of s "''.json''"] by blast+
  then show False by simp
qed

lemma getLatestReport_None: "getLatestReport fs = None"
  by (cases "dir_entries fs") (simp_all add: getLatestReport_def report_filter_never newest_first_def)

lemma main_no_args:
  assumes "files fs (BASELINE_FILE fs) \<noteq> None"
  shows "main [] fs = (Exit 1, [''No performance results found!'',
                                ''   Run: pnpm test:performance to generate results''])"
  using assms by (simp add: main_def getLatestReport_None)

lemma fl_small_ints:
  "fl 1 = Fin 1" "fl 2 = Fin 2" "fl 3 = Fin 3" "fl 5 = Fin 5" "fl 6 = Fin 6"
  using fl_int_exact[of 1] fl_int_exact[of 2] fl_int_exact[of 3] fl_int_exact[of 5]
    fl_int_exact[of 6]
  by simp_all

lemma fl_tenth_sums:
  "fl d0_1 = Fin d0_1"
  "fl (d0_1 + d0_1) = Fin (2 * d0_1)"
  "fl (2 * d0_1 + d0_1) = Fin (5404319552844596 / 2 ^ 54)"
  "fl (5404319552844596 / 2 ^ 54 / 3) = Fin (7205759403792795 / 2 ^ 56)"
proof -
  show "fl d0_1 = Fin d0_1"
    by (subst fl_eval[where e = "-4"]) (simp_all add: d0_1_def power_int_minus rte_def Let_def)
  show "fl (d0_1 + d0_1) = Fin (2 * d0_1)"
    by (subst fl_eval[where e = "-3"]) (simp_all add: d0_1_def power_int_minus rte_def Let_def)
  show "fl (2 * d0_1 + d0_1) = Fin (5404319552844596 / 2 ^ 54)"
    by (subst fl_eval[where e = "-2"]) (simp_all add: d0_1_def power_int_minus rte_def Let_def)
  show "fl (5404319552844596 / 2 ^ 54 / 3) = Fin (7205759403792795 / 2 ^ 56)"
    by (subst fl_eval[where e = "-4"]) (simp_all add: power_int_minus rte_def Let_def)
qed

lemma three_tenths_mean:
  "mean (calculateStats [d0_1, d0_1, d0_1]) = Fin (7205759403792795 / 2 ^ 56)"
proof -
  have s: "sort [d0_1, d0_1, d0_1] = [d0_1, d0_1, d0_1]" by simp
  have a1: "js_add (Fin 0) (Fin d0_1) = Fin d0_1" by (simp add: fl_tenth_sums(1))
  have a2: "js_add (Fin d0_1) (Fin d0_1) = Fin (2 * d0_1)"
    by (simp only: js_add.simps fl_tenth_sums(2))
  have a3: "js_add (Fin (2 * d0_1)) (Fin d0_1) = Fin (5404319552844596 / 2 ^ 54)"
    by (simp only: js_add.simps fl_tenth_sums(3))
  have a4: "js_div (Fin (5404319552844596 / 2 ^ 54)) (Fin 3) = Fin (7205759403792795 / 2 ^ 56)"
    using fl_tenth_sums(4) by simp
  have "number_sum (map Fin [d0_1, d0_1, d0_1]) = Fin (5404319552844596 / 2 ^ 54)"
    by (simp only: number_sum_def list.map foldl_Cons foldl_Nil a1 a2 a3)
  then show ?thesis unfolding mean_calculateStats s using a4 by simp
qed

lemma three_tenths_max:
  "max_stat (calculateStats [d0_1, d0_1, d0_1]) = Fin d0_1"
  using order_stats_calculateStats(3)[of "[d0_1, d0_1, d0_1]"] by simp

lemma one_two_three_mean: "mean (calculateStats [1, 2, 3]) = Fin 2"
  unfolding mean_calculateStats by (simp add: number_sum_def fl_small_ints)

section \<open>The statistical summary\<close>

text \<open>
  Claim C2, as stated: for the empty sequence \<open>calculateStats\<close> fails with an InvalidInput
  condition and returns no summary. The function has no failing path: on the empty
  sequence the division \<open>0 / 0\<close> gives \<open>NaN\<close> and the reads of the empty sorted copy
  give \<open>undefined\<close>, and these are the fields of the summary it returns.
\<close>

theorem calculateStats_empty_returns:
  "mean (calculateStats []) = NaN \<and> median (calculateStats []) = Undefined"
  by (simp add: calculateStats_Nil)

text \<open>
  Claim C2, amended: for the empty sequence \<open>calculateStats\<close> returns the summary whose
  mean and standard deviation are \<open>NaN\<close> and whose median, minimum, maximum, p95 and p99
  are \<open>undefined\<close>.
\<close>

theorem calculateStats_empty:
  "calculateStats [] = \<lparr>mean = NaN, median = Undefined, min_stat = Undefined,
      max_stat = Undefined, p95 = Undefined, p99 = Undefined, stdDev = NaN\<rparr>"
  by (rule calculateStats_Nil)

text \<open>
  Claim C3: for every non-empty sequence of durations (an array has fewer than \<open>2^32\<close>
  elements) \<open>calculateStats\<close> returns exactly the reference summary of the
  specification: the positions \<open>Math.floor(n / 2)\<close>, \<open>Math.floor(n * 0.95)\<close> and
  \<open>Math.floor(n * 0.99)\<close> it computes with doubles are the exact floors, and no read
  is out of range. For a single duration, a double \<open>v\<close>, the mean, median, minimum,
  maximum, p95 and p99 are \<open>v\<close> and the standard deviation is \<open>0\<close>.
\<close>

theorem calculateStats_reference:
  assumes "ds \<noteq> []" and "length ds < 2 ^ 32"
  shows "calculateStats ds = summarize_spec ds \<and>
         (\<forall>v. ds = [v] \<and> fl v = Fin v \<longrightarrow>
            calculateStats ds = \<lparr>mean = Fin v, median = Fin v, min_stat = Fin v,
              max_stat = Fin v, p95 = Fin v, p99 = Fin v, stdDev = Fin 0\<rparr>)"
  using calculateStats_eq_spec[OF assms] calculateStats_single by blast

theorem calculateStats_reference_witness:
  "[5 :: real] \<noteq> [] \<and> length [5 :: real] < 2 ^ 32 \<and> fl 5 = Fin 5 \<and>
   calculateStats [5] = summarize_spec [5] \<and>
   calculateStats [5] = \<lparr>mean = Fin 5, median = Fin 5, min_stat = Fin 5,
              max_stat = Fin 5, p95 = Fin 5, p99 = Fin 5, stdDev = Fin 0\<rparr>"
proof -
  have h: "[5 :: real] \<noteq> []" "length [5 :: real] < 2 ^ 32" by simp_all
  show ?thesis using h fl_small_ints(4) calculateStats_reference[OF h] by blast
qed

text \<open>
  Claim C4, as stated: for every non-empty sequence the summary satisfies
  \<open>min \<le> mean \<le> max\<close> (among others). The mean is a rounded sum divided and rounded
  again: for three durations \<open>0.1\<close> the sum is \<open>0.30000000000000004\<close> and the mean
  \<open>0.10000000000000002\<close>, above the maximum \<open>0.1\<close>.
\<close>

theorem mean_exceeds_max:
  "\<not> js_le (mean (calculateStats [d0_1, d0_1, d0_1]))
          (max_stat (calculateStats [d0_1, d0_1, d0_1]))"
  unfolding three_tenths_mean three_tenths_max by (simp add: d0_1_def)

text \<open>
  Claim C4, amended: for every non-empty sequence of durations the summary satisfies
  \<open>min \<le> median \<le> p95 \<le> p99 \<le> max\<close> and \<open>stdDev \<ge> 0\<close> (ties permitted), and
  \<open>min \<le> mean \<le> max\<close> whenever the mean returned is the exact quotient of the sum of
  the durations by their number.
\<close>

theorem calculateStats_ordered:
  assumes "ds \<noteq> []" and "length ds < 2 ^ 32"
  shows "js_le (min_stat (calculateStats ds)) (median (calculateStats ds)) \<and>
         js_le (median (calculateStats ds)) (p95 (calculateStats ds)) \<and>
         js_le (p95 (calculateStats ds)) (p99 (calculateStats ds)) \<and>
         js_le (p99 (calculateStats ds)) (max_stat (calculateStats ds)) \<and>
         js_le (Fin 0) (stdDev (calculateStats ds)) \<and>
         (mean (calculateStats ds) = Fin (sum_list ds / real (length ds)) \<longrightarrow>
            js_le (min_stat (calculateStats ds)) (mean (calculateStats ds)) \<and>
            js_le (mean (calculateStats ds)) (max_stat (calculateStats ds)))"
proof -
  note os = order_stats_calculateStats(2,3)[OF assms]
  have "js_le (min_stat (calculateStats ds)) (Fin (sum_list ds / real (length ds)))"
       "js_le (Fin (sum_list ds / real (length ds))) (max_stat (calculateStats ds))"
    unfolding os using exact_mean_bounds[OF assms(1)] by simp_all
  then show ?thesis
    using order_chain[OF assms] stdDev_nonneg[OF assms(1)] by simp
qed

theorem calculateStats_ordered_witness:
  "[1, 2, 3 :: real] \<noteq> [] \<and> length [1, 2, 3 :: real] < 2 ^ 32 \<and>
   mean (calculateStats [1, 2, 3]) = Fin (sum_list [1, 2, 3] / real (length [1, 2, 3 :: real])) \<and>
   js_le (min_stat (calculateStats [1, 2, 3])) (median (calculateStats [1, 2, 3])) \<and>
   js_le (median (calculateStats [1, 2, 3])) (p95 (calculateStats [1, 2, 3])) \<and>
   js_le (p95 (calculateStats [1, 2, 3])) (p99 (calculateStats [1, 2, 3])) \<and>
   js_le (p99 (calculateStats [1, 2, 3])) (max_stat (calculateStats [1, 2, 3])) \<and>
   js_le (Fin 0) (stdDev (calculateStats [1, 2, 3])) \<and>
   js_le (min_stat (calculateStats [1, 2, 3])) (mean (calculateStats [1, 2, 3])) \<and>
   js_le (mean (calculateStats [1, 2, 3])) (max_stat (calculateStats [1, 2, 3]))"
proof -
  have h: "[1, 2, 3 :: real] \<noteq> []" "length [1, 2, 3 :: real] < 2 ^ 32" by simp_all
  have m: "mean (calculateStats [1, 2, 3]) = Fin (sum_list [1, 2, 3] / real (length [1, 2, 3 :: real]))"
    unfolding one_two_three_mean by simp
  show ?thesis using h m calculateStats_ordered[OF h] by blast
qed

text \<open>
  Claim C5: \<open>calculateStats\<close> is invariant under permutation of its input: two sequences
  with the same elements, in any order, have the same summary, in all seven fields.
\<close>

theorem calculateStats_permutation_invariant:
  assumes "mset ds = mset ds'"
  shows "calculateStats ds = calculateStats ds'"
  using assms by (rule calculateStats_perm)

theorem calculateStats_permutation_invariant_witness:
  "mset [3, 1, 2 :: real] = mset [1, 2, 3] \<and> calculateStats [3, 1, 2] = calculateStats [1, 2, 3]"
proof -
  have h: "mset [3, 1, 2 :: real] = mset [1, 2, 3]" by (simp add: add_mset_commute)
  show ?thesis using h calculateStats_permutation_invariant[OF h] by blast
qed

section \<open>The comparison\<close>

lemma fl_halves:
  "fl (1 / 2) = Fin (1 / 2)" "fl (- (1 / 2)) = Fin (- (1 / 2))" "fl (- 1) = Fin (- 1)"
proof -
  show "fl (1 / 2) = Fin (1 / 2)"
    by (subst fl_eval[where e = "-1"]) (simp_all add: power_int_minus rte_def Let_def)
  show "fl (- (1 / 2)) = Fin (- (1 / 2))"
    by (subst fl_eval[where e = "-1"]) (simp_all add: power_int_minus rte_def Let_def)
  show "fl (- 1) = Fin (- 1)" using fl_int_exact[of "- 1"] by simp
qed

lemma loadBaseline_sample: "loadBaseline (sample_fs es (Some r)) = Some r"
  by (simp add: loadBaseline_def sample_fs_def BASELINE_FILE_def RESULTS_DIR_def join_def)

lemma sample_pair:
  "compare_pair rt it (sample_result nm (Fin 2)) (sample_result nm (Fin 3)) =
     sample_comparison nm (Fin 2) (Fin 3) (Fin (1 / 2)) (js_gt (Fin (1 / 2)) rt) (js_lt (Fin (1 / 2)) (js_neg it))"
  "compare_pair rt it (sample_result nm (Fin 2)) (sample_result nm (Fin 2)) =
     sample_comparison nm (Fin 2) (Fin 2) (Fin 0) (js_gt (Fin 0) rt) (js_lt (Fin 0) (js_neg it))"
  "compare_pair rt it (sample_result nm (Fin 2)) (sample_result nm (Fin 1)) =
     sample_comparison nm (Fin 2) (Fin 1) (Fin (- (1 / 2))) (js_gt (Fin (- (1 / 2))) rt) (js_lt (Fin (- (1 / 2))) (js_neg it))"
  by (simp_all add: compare_pair_def Let_def sample_comparison_def sample_result_def js_sub_def
      fl_small_ints fl_halves)

lemma three_spec:
  "compare_spec t (results three_baseline) (results three_current) =
     [sample_comparison ''X'' (Fin 2) (Fin 3) (Fin (1 / 2)) (js_gt (Fin (1 / 2)) t) (js_lt (Fin (1 / 2)) (js_neg t)),
      sample_comparison ''Y'' (Fin 2) (Fin 2) (Fin 0) (js_gt (Fin 0) t) (js_lt (Fin 0) (js_neg t)),
      sample_comparison ''Z'' (Fin 2) (Fin 1) (Fin (- (1 / 2))) (js_gt (Fin (- (1 / 2))) t) (js_lt (Fin (- (1 / 2))) (js_neg t))]"
proof -
  have n: "testName (sample_result nm m) = nm" for nm m by (simp add: sample_result_def)
  show ?thesis
    by (simp add: compare_spec_def three_baseline_def three_current_def sample_report_def
        map_filter_simps n sample_pair)
qed

lemma three_warnings:
  "map (\<lambda>r. ''No baseline found for test: '' @ testName r)
     (filter (\<lambda>r. testName r \<notin> testName ` set (results three_baseline)) (results three_current))
   = [''No baseline found for test: W'']"
proof -
  have n: "testName (sample_result nm m) = nm" for nm m by (simp add: sample_result_def)
  show ?thesis
    by (simp add: three_baseline_def three_current_def sample_report_def n)
qed

text \<open>
  Claim C7: the comparison goes over \<open>current.results\<close> in order and aligns by equality
  of the test names. Each current test with a baseline test of the same name yields one
  result, whose four changes are \<open>(current - baseline) / baseline\<close> per statistic; a
  current test without one is skipped with a warning, and the comparison goes on; a test
  of the baseline alone yields nothing; the results are in the order of
  \<open>current.results\<close>. This holds of \<open>compareWithBaseline\<close>, whenever a baseline is
  stored, and of \<open>compareReports\<close>.
\<close>

theorem comparison_aligns_by_name:
  assumes "loadBaseline fs = Some b"
  shows "compareWithBaseline fs c t =
           (map (\<lambda>r. ''No baseline found for test: '' @ testName r)
              (filter (\<lambda>r. testName r \<notin> testName ` set (results b)) (results c)),
            compare_spec t (results b) (results c)) \<and>
         compareReports b c =
           (map (\<lambda>r. ''No baseline found for test: '' @ testName r)
              (filter (\<lambda>r. testName r \<notin> testName ` set (results b)) (results c)),
            compare_spec REGRESSION_THRESHOLD (results b) (results c)) \<and>
         map cmp_testName (compare_spec t (results b) (results c)) =
           filter (\<lambda>n. n \<in> testName ` set (results b)) (map testName (results c)) \<and>
         (\<forall>x\<in>set (compare_spec t (results b) (results c)).
            \<exists>br\<in>set (results b). \<exists>cr\<in>set (results c).
              testName br = testName cr \<and> cmp_testName x = testName cr \<and>
              baseline x = stats br \<and> current x = stats cr \<and>
              meanChange (changes x) =
                js_div (js_sub (mean (stats cr)) (mean (stats br))) (mean (stats br)) \<and>
              medianChange (changes x) =
                js_div (js_sub (median (stats cr)) (median (stats br))) (median (stats br)) \<and>
              p95Change (changes x) =
                js_div (js_sub (p95 (stats cr)) (p95 (stats br))) (p95 (stats br)) \<and>
              p99Change (changes x) =
                js_div (js_sub (p99 (stats cr)) (p99 (stats br))) (p99 (stats br)))"
proof (intro conjI ballI)
  show "compareWithBaseline fs c t =
           (map (\<lambda>r. ''No baseline found for test: '' @ testName r)
              (filter (\<lambda>r. testName r \<notin> testName ` set (results b)) (results c)),
            compare_spec t (results b) (results c))"
    using assms by (rule compareWithBaseline_Some)
  show "compareReports b c =
           (map (\<lambda>r. ''No baseline found for test: '' @ testName r)
              (filter (\<lambda>r. testName r \<notin> testName ` set (results b)) (results c)),
            compare_spec REGRESSION_THRESHOLD (results b) (results c))"
    by (simp add: compareReports_char REGRESSION_THRESHOLD_def)
  show "map cmp_testName (compare_spec t (results b) (results c)) =
           filter (\<lambda>n. n \<in> testName ` set (results b)) (map testName (results c))"
    unfolding compare_spec_def by (rule compared_names)
next
  fix x assume "x \<in> set (compare_spec t (results b) (results c))"
  then obtain br cr where p: "br \<in> set (results b)" "cr \<in> set (results c)"
      "testName br = testName cr" "x = compare_pair t t br cr"
    unfolding compare_spec_def using compared_elements[of x t t "results b" "results c"] by blast
  show "\<exists>br\<in>set (results b). \<exists>cr\<in>set (results c).
              testName br = testName cr \<and> cmp_testName x = testName cr \<and>
              baseline x = stats br \<and> current x = stats cr \<and>
              meanChange (changes x) =
                js_div (js_sub (mean (stats cr)) (mean (stats br))) (mean (stats br)) \<and>
              medianChange (changes x) =
                js_div (js_sub (median (stats cr)) (median (stats br))) (median (stats br)) \<and>
              p95Change (changes x) =
                js_div (js_sub (p95 (stats cr)) (p95 (stats br))) (p95 (stats br)) \<and>
              p99Change (changes x) =
                js_div (js_sub (p99 (stats cr)) (p99 (stats br))) (p99 (stats br))"
    using p(1,2,3) unfolding p(4)
    by (intro bexI[of _ br] bexI[of _ cr]) (simp_all add: compare_pair_changes)
qed

theorem comparison_aligns_by_name_witness:
  "loadBaseline (sample_fs [] (Some three_baseline)) = Some three_baseline \<and>
   compareWithBaseline (sample_fs [] (Some three_baseline)) three_current (Fin d0_1) =
     ([''No baseline found for test: W''],
      [sample_comparison ''X'' (Fin 2) (Fin 3) (Fin (1 / 2)) True False,
       sample_comparison ''Y'' (Fin 2) (Fin 2) (Fin 0) False False,
       sample_comparison ''Z'' (Fin 2) (Fin 1) (Fin (- (1 / 2))) False True]) \<and>
   map cmp_testName (compare_spec (Fin d0_1) (results three_baseline) (results three_current)) =
     [''X'', ''Y'', ''Z'']"
proof -
  have h: "loadBaseline (sample_fs [] (Some three_baseline)) = Some three_baseline"
    by (rule loadBaseline_sample)
  have f: "js_gt (Fin (1 / 2)) (Fin d0_1) = True" "js_lt (Fin (1 / 2)) (js_neg (Fin d0_1)) = False"
     "js_gt (Fin 0) (Fin d0_1) = False" "js_lt (Fin 0) (js_neg (Fin d0_1)) = False"
     "js_gt (Fin (- (1 / 2))) (Fin d0_1) = False" "js_lt (Fin (- (1 / 2))) (js_neg (Fin d0_1)) = True"
    by (simp_all add: js_gt_def d0_1_def)
  have n: "map cmp_testName (compare_spec (Fin d0_1) (results three_baseline) (results three_current)) =
     [''X'', ''Y'', ''Z'']"
    unfolding three_spec by (simp add: sample_comparison_def)
  have t: "compareWithBaseline (sample_fs [] (Some three_baseline)) three_current (Fin d0_1) =
     ([''No baseline found for test: W''],
      [sample_comparison ''X'' (Fin 2) (Fin 3) (Fin (1 / 2)) True False,
       sample_comparison ''Y'' (Fin 2) (Fin 2) (Fin 0) False False,
       sample_comparison ''Z'' (Fin 2) (Fin 1) (Fin (- (1 / 2))) False True])"
    using comparison_aligns_by_name[OF h, of three_current "Fin d0_1", THEN conjunct1]
    unfolding three_spec three_warnings f .
  show ?thesis using h t n by (intro conjI)
qed

lemma compare_pair_strict:
  assumes "0 < t"
  shows "(meanChange (changes (compare_pair (Fin t) (Fin t) b c)) = Fin t \<longrightarrow>
            \<not> regression (compare_pair (Fin t) (Fin t) b c)) \<and>
         (meanChange (changes (compare_pair (Fin t) (Fin t) b c)) = Fin (- t) \<longrightarrow>
            \<not> improvement (compare_pair (Fin t) (Fin t) b c)) \<and>
         (\<forall>m. mean (baseline (compare_pair (Fin t) (Fin t) b c)) = Fin m \<and>
              mean (current (compare_pair (Fin t) (Fin t) b c)) = Fin m \<and> m \<noteq> 0 \<longrightarrow>
              meanChange (changes (compare_pair (Fin t) (Fin t) b c)) = Fin 0 \<and>
              \<not> regression (compare_pair (Fin t) (Fin t) b c) \<and>
              \<not> improvement (compare_pair (Fin t) (Fin t) b c))"
proof (intro conjI allI impI)
  assume "meanChange (changes (compare_pair (Fin t) (Fin t) b c)) = Fin t"
  then show "\<not> regression (compare_pair (Fin t) (Fin t) b c)"
    by (simp add: compare_pair_flags js_gt_def)
next
  assume "meanChange (changes (compare_pair (Fin t) (Fin t) b c)) = Fin (- t)"
  then show "\<not> improvement (compare_pair (Fin t) (Fin t) b c)"
    by (simp add: compare_pair_flags)
next
  fix m
  assume a: "mean (baseline (compare_pair (Fin t) (Fin t) b c)) = Fin m \<and>
             mean (current (compare_pair (Fin t) (Fin t) b c)) = Fin m \<and> m \<noteq> 0"
  then have z: "meanChange (changes (compare_pair (Fin t) (Fin t) b c)) = Fin 0"
    by (simp add: compare_pair_changes equal_means_change)
  show "meanChange (changes (compare_pair (Fin t) (Fin t) b c)) = Fin 0" by (rule z)
  show "\<not> regression (compare_pair (Fin t) (Fin t) b c)"
    using assms by (simp add: compare_pair_flags z js_gt_def)
  show "\<not> improvement (compare_pair (Fin t) (Fin t) b c)"
    using assms by (simp add: compare_pair_flags z)
qed

lemma d0_1_pos: "0 < d0_1"
  by (simp add: d0_1_def)

text \<open>
  Claim C6: the threshold test is strict on both sides. For every positive threshold
  \<open>t\<close>, a result whose mean change is exactly \<open>t\<close> is not a regression and one whose
  mean change is exactly \<open>- t\<close> is not an improvement; a result whose baseline and
  current mean are the same non-zero number has mean change exactly \<open>0\<close> and is stable.
  The same holds of the tool's \<open>compareReports\<close> with its thresholds of \<open>0.1\<close>.
\<close>

theorem threshold_test_strict:
  assumes "0 < t"
  shows "(\<forall>x\<in>set (snd (compareWithBaseline fs c (Fin t))).
           (meanChange (changes x) = Fin t \<longrightarrow> \<not> regression x) \<and>
           (meanChange (changes x) = Fin (- t) \<longrightarrow> \<not> improvement x) \<and>
           (\<forall>m. mean (baseline x) = Fin m \<and> mean (current x) = Fin m \<and> m \<noteq> 0 \<longrightarrow>
              meanChange (changes x) = Fin 0 \<and> \<not> regression x \<and> \<not> improvement x)) \<and>
         (\<forall>x\<in>set (snd (compareReports b c')).
           (meanChange (changes x) = REGRESSION_THRESHOLD \<longrightarrow> \<not> regression x) \<and>
           (meanChange (changes x) = js_neg IMPROVEMENT_THRESHOLD \<longrightarrow> \<not> improvement x) \<and>
           (\<forall>m. mean (baseline x) = Fin m \<and> mean (current x) = Fin m \<and> m \<noteq> 0 \<longrightarrow>
              meanChange (changes x) = Fin 0 \<and> \<not> regression x \<and> \<not> improvement x))"
proof (rule conjI; rule ballI)
  fix x assume "x \<in> set (snd (compareWithBaseline fs c (Fin t)))"
  then obtain br cr where x: "x = compare_pair (Fin t) (Fin t) br cr"
    using compareWithBaseline_elements by blast
  show "(meanChange (changes x) = Fin t \<longrightarrow> \<not> regression x) \<and>
           (meanChange (changes x) = Fin (- t) \<longrightarrow> \<not> improvement x) \<and>
           (\<forall>m. mean (baseline x) = Fin m \<and> mean (current x) = Fin m \<and> m \<noteq> 0 \<longrightarrow>
              meanChange (changes x) = Fin 0 \<and> \<not> regression x \<and> \<not> improvement x)"
    unfolding x by (rule compare_pair_strict[OF assms])
next
  fix x assume "x \<in> set (snd (compareReports b c'))"
  then obtain br cr where x: "x = compare_pair (Fin d0_1) (Fin d0_1) br cr"
    using compareReports_elements by blast
  show "(meanChange (changes x) = REGRESSION_THRESHOLD \<longrightarrow> \<not> regression x) \<and>
           (meanChange (changes x) = js_neg IMPROVEMENT_THRESHOLD \<longrightarrow> \<not> improvement x) \<and>
           (\<forall>m. mean (baseline x) = Fin m \<and> mean (current x) = Fin m \<and> m \<noteq> 0 \<longrightarrow>
              meanChange (changes x) = Fin 0 \<and> \<not> regression x \<and> \<not> improvement x)"
    unfolding x using compare_pair_strict[OF d0_1_pos, of br cr]
    by (simp add: REGRESSION_THRESHOLD_def IMPROVEMENT_THRESHOLD_def)
qed

lemma three_half:
  "snd (compareWithBaseline (sample_fs [] (Some three_baseline)) three_current (Fin (1 / 2))) =
      [sample_comparison ''X'' (Fin 2) (Fin 3) (Fin (1 / 2)) False False,
       sample_comparison ''Y'' (Fin 2) (Fin 2) (Fin 0) False False,
       sample_comparison ''Z'' (Fin 2) (Fin 1) (Fin (- (1 / 2))) False False]"
proof -
  have f: "js_gt (Fin (1 / 2)) (Fin (1 / 2)) = False" "js_lt (Fin (1 / 2)) (js_neg (Fin (1 / 2))) = False"
     "js_gt (Fin 0) (Fin (1 / 2)) = False" "js_lt (Fin 0) (js_neg (Fin (1 / 2))) = False"
     "js_gt (Fin (- (1 / 2))) (Fin (1 / 2)) = False" "js_lt (Fin (- (1 / 2))) (js_neg (Fin (1 / 2))) = False"
    by (simp_all add: js_gt_def)
  show ?thesis
    unfolding compareWithBaseline_Some[OF loadBaseline_sample] snd_conv three_spec f ..
qed

theorem threshold_test_strict_witness:
  "(0 :: real) < 1 / 2 \<and>
   snd (compareWithBaseline (sample_fs [] (Some three_baseline)) three_current (Fin (1 / 2))) =
      [sample_comparison ''X'' (Fin 2) (Fin 3) (Fin (1 / 2)) False False,
       sample_comparison ''Y'' (Fin 2) (Fin 2) (Fin 0) False False,
       sample_comparison ''Z'' (Fin 2) (Fin 1) (Fin (- (1 / 2))) False False] \<and>
   meanChange (changes (sample_comparison ''X'' (Fin 2) (Fin 3) (Fin (1 / 2)) False False)) =
     Fin (1 / 2) \<and>
   \<not> regression (sample_comparison ''X'' (Fin 2) (Fin 3) (Fin (1 / 2)) False False) \<and>
   meanChange (changes (sample_comparison ''Z'' (Fin 2) (Fin 1) (Fin (- (1 / 2))) False False)) =
     Fin (- (1 / 2)) \<and>
   \<not> improvement (sample_comparison ''Z'' (Fin 2) (Fin 1) (Fin (- (1 / 2))) False False) \<and>
   mean (baseline (sample_comparison ''Y'' (Fin 2) (Fin 2) (Fin 0) False False)) = Fin 2 \<and>
   mean (current (sample_comparison ''Y'' (Fin 2) (Fin 2) (Fin 0) False False)) = Fin 2 \<and>
   meanChange (changes (sample_comparison ''Y'' (Fin 2) (Fin 2) (Fin 0) False False)) = Fin 0 \<and>
   \<not> regression (sample_comparison ''Y'' (Fin 2) (Fin 2) (Fin 0) False False) \<and>
   \<not> improvement (sample_comparison ''Y'' (Fin 2) (Fin 2) (Fin 0) False False)"
proof -
  let ?X = "sample_comparison ''X'' (Fin 2) (Fin 3) (Fin (1 / 2)) False False"
  let ?Y = "sample_comparison ''Y'' (Fin 2) (Fin 2) (Fin 0) False False"
  let ?Z = "sample_comparison ''Z'' (Fin 2) (Fin 1) (Fin (- (1 / 2))) False False"
  have h: "(0 :: real) < 1 / 2" by simp
  note t = threshold_test_strict[OF h, of "sample_fs [] (Some three_baseline)" three_current,
        THEN conjunct1, unfolded three_half]
  have x: "meanChange (changes ?X) = Fin (1 / 2)"
    and z: "meanChange (changes ?Z) = Fin (- (1 / 2))"
    and y: "mean (baseline ?Y) = Fin 2" "mean (current ?Y) = Fin 2"
    by (simp_all add: sample_comparison_def sample_result_def)
  have rx: "\<not> regression ?X" using t x by simp
  have iz: "\<not> improvement ?Z" using t z by simp
  have "(2 :: real) \<noteq> 0" by simp
  then have sy: "meanChange (changes ?Y) = Fin 0 \<and> \<not> regression ?Y \<and> \<not> improvement ?Y"
    using t y by (meson list.set_intros)
  show ?thesis using h three_half x rx z iz y sy by (intro conjI) simp_all
qed

text \<open>
  Claim C10: for every non-negative threshold no result of the comparison is both a
  regression and an improvement; so every result is exactly one of regression,
  improvement and stable, and the three counts sum to the number of results.
\<close>

theorem regression_improvement_exclusive:
  assumes "js_le (Fin 0) t"
  shows "(\<forall>x\<in>set (snd (compareWithBaseline fs c t)). \<not> (regression x \<and> improvement x)) \<and>
         regressionCount (snd (compareWithBaseline fs c t)) +
           improvementCount (snd (compareWithBaseline fs c t)) +
           stableCount (snd (compareWithBaseline fs c t)) =
         length (snd (compareWithBaseline fs c t)) \<and>
         (\<forall>x\<in>set (snd (compareReports b c')). \<not> (regression x \<and> improvement x)) \<and>
         regressionCount (snd (compareReports b c')) +
           improvementCount (snd (compareReports b c')) +
           stableCount (snd (compareReports b c')) =
         length (snd (compareReports b c'))"
proof -
  have a: "\<not> (regression x \<and> improvement x)" if "x \<in> set (snd (compareWithBaseline fs c t))" for x
  proof -
    from that obtain br cr where x: "x = compare_pair t t br cr"
      using compareWithBaseline_elements by blast
    show ?thesis unfolding x compare_pair_flags by (rule not_both_flags[OF assms])
  qed
  have d: "js_le (Fin 0) (Fin d0_1)" using d0_1_pos by simp
  have b: "\<not> (regression x \<and> improvement x)" if "x \<in> set (snd (compareReports b c'))" for x
  proof -
    from that obtain br cr where x: "x = compare_pair (Fin d0_1) (Fin d0_1) br cr"
      using compareReports_elements by blast
    show ?thesis unfolding x compare_pair_flags by (rule not_both_flags[OF d])
  qed
  show ?thesis
    unfolding regressionCount_def improvementCount_def stableCount_def
    using a b three_way_count[of "snd (compareWithBaseline fs c t)" regression improvement, OF a]
      three_way_count[of "snd (compareReports b c')" regression improvement, OF b]
    by blast
qed

lemma three_tenth:
  "snd (compareWithBaseline (sample_fs [] (Some three_baseline)) three_current (Fin d0_1)) =
      [sample_comparison ''X'' (Fin 2) (Fin 3) (Fin (1 / 2)) True False,
       sample_comparison ''Y'' (Fin 2) (Fin 2) (Fin 0) False False,
       sample_comparison ''Z'' (Fin 2) (Fin 1) (Fin (- (1 / 2))) False True]"
proof -
  have f: "js_gt (Fin (1 / 2)) (Fin d0_1) = True" "js_lt (Fin (1 / 2)) (js_neg (Fin d0_1)) = False"
     "js_gt (Fin 0) (Fin d0_1) = False" "js_lt (Fin 0) (js_neg (Fin d0_1)) = False"
     "js_gt (Fin (- (1 / 2))) (Fin d0_1) = False" "js_lt (Fin (- (1 / 2))) (js_neg (Fin d0_1)) = True"
    by (simp_all add: js_gt_def d0_1_def)
  show ?thesis
    unfolding compareWithBaseline_Some[OF loadBaseline_sample] snd_conv three_spec f ..
qed

theorem regression_improvement_exclusive_witness:
  "js_le (Fin 0) (Fin d0_1) \<and>
   regressionCount (snd (compareWithBaseline (sample_fs [] (Some three_baseline)) three_current (Fin d0_1))) +
     improvementCount (snd (compareWithBaseline (sample_fs [] (Some three_baseline)) three_current (Fin d0_1))) +
     stableCount (snd (compareWithBaseline (sample_fs [] (Some three_baseline)) three_current (Fin d0_1))) =
   length (snd (compareWithBaseline (sample_fs [] (Some three_baseline)) three_current (Fin d0_1))) \<and>
   regressionCount (snd (compareWithBaseline (sample_fs [] (Some three_baseline)) three_current (Fin d0_1))) = 1 \<and>
   improvementCount (snd (compareWithBaseline (sample_fs [] (Some three_baseline)) three_current (Fin d0_1))) = 1 \<and>
   stableCount (snd (compareWithBaseline (sample_fs [] (Some three_baseline)) three_current (Fin d0_1))) = 1 \<and>
   length (snd (compareWithBaseline (sample_fs [] (Some three_baseline)) three_current (Fin d0_1))) = 3"
proof -
  have h: "js_le (Fin 0) (Fin d0_1)" using d0_1_pos by simp
  have c: "regressionCount (snd (compareWithBaseline (sample_fs [] (Some three_baseline)) three_current (Fin d0_1))) = 1"
    "improvementCount (snd (compareWithBaseline (sample_fs [] (Some three_baseline)) three_current (Fin d0_1))) = 1"
    "stableCount (snd (compareWithBaseline (sample_fs [] (Some three_baseline)) three_current (Fin d0_1))) = 1"
    "length (snd (compareWithBaseline (sample_fs [] (Some three_baseline)) three_current (Fin d0_1))) = 3"
    unfolding three_tenth
    by (simp_all add: regressionCount_def improvementCount_def stableCount_def sample_comparison_def)
  show ?thesis
    using h c
      regression_improvement_exclusive[OF h, of "sample_fs [] (Some three_baseline)" three_current,
        THEN conjunct2, THEN conjunct1]
    by (intro conjI)
qed

section \<open>The default comparison of the tool\<close>

text \<open>
  Claim C1 says that, a baseline being present and the tool run without arguments,
  \<open>getLatestReport\<close> returns the most recently modified saved report, so that the tool
  goes on to the comparison. The code does otherwise: its filter keeps the names that end
  with \<open>_report_\<close> and with \<open>.json\<close>, which no name does, so \<open>getLatestReport\<close> finds
  no file in any results directory, and the tool run without arguments, a baseline being
  present, always exits with code 1 and the message that no results were found.
\<close>

theorem getLatestReport_finds_nothing:
  "getLatestReport fs = None \<and>
   (files fs (BASELINE_FILE fs) \<noteq> None \<longrightarrow>
      main [] fs = (Exit 1, [''No performance results found!'',
                             ''   Run: pnpm test:performance to generate results'']))"
  using main_no_args[of fs] getLatestReport_None[of fs] by blast

theorem getLatestReport_finds_nothing_witness:
  "files (sample_fs [(''baseline.json'', 100),
                     (''ipc-performance_report_2025-01-15T10-00-00-000Z.json'', 200)]
            (Some three_baseline))
     (BASELINE_FILE (sample_fs [(''baseline.json'', 100),
                     (''ipc-performance_report_2025-01-15T10-00-00-000Z.json'', 200)]
            (Some three_baseline))) \<noteq> None \<and>
   getLatestReport (sample_fs [(''baseline.json'', 100),
                     (''ipc-performance_report_2025-01-15T10-00-00-000Z.json'', 200)]
            (Some three_baseline)) = None \<and>
   main [] (sample_fs [(''baseline.json'', 100),
                     (''ipc-performance_report_2025-01-15T10-00-00-000Z.json'', 200)]
            (Some three_baseline))
     = (Exit 1, [''No performance results found!'',
                 ''   Run: pnpm test:performance to generate results''])"
proof -
  let ?fs = "sample_fs [(''baseline.json'', 100),
                     (''ipc-performance_report_2025-01-15T10-00-00-000Z.json'', 200)]
            (Some three_baseline)"
  have h: "files ?fs (BASELINE_FILE ?fs) \<noteq> None"
    by (simp add: sample_fs_def BASELINE_FILE_def RESULTS_DIR_def join_def)
  show ?thesis using h getLatestReport_finds_nothing[of ?fs] by blast
qed

section \<open>The CSV export\<close>

lemma digit_values:
  "digit 0 = CHR ''0''" "digit 1 = CHR ''1''" "digit 10 = CHR ''0''" "digit 100 = CHR ''0''"
  by (simp_all add: digit_def)

lemma dec_values: "dec 0 = ''0''" "dec 1 = ''1''" "dec 10 = ''10''" "dec (Suc 0) = ''1''"
proof -
  show "dec (Suc 0) = ''1''" by (subst dec.simps) (simp add: digit_def)
  show "dec 0 = ''0''" by (subst dec.simps) (simp add: digit_def)
  show "dec 1 = ''1''" by (subst dec.simps) (simp add: digit_def)
  show "dec 10 = ''10''" by (subst dec.simps, subst dec.simps) (simp add: digit_def)
qed

lemma toFixed2_one: "toFixed2 nts (Fin 1) = Inr ''1.00''"
  by (simp add: toFixed2_def Let_def dec_values digit_values)

lemma toFixed2_zero: "toFixed2 nts (Fin 0) = Inr ''0.00''"
  by (simp add: toFixed2_def Let_def dec_values digit_values)

lemma toFixed2_nonfinite:
  "toFixed2 nts NaN = Inr ''NaN''"
  "toFixed2 nts PosInf = Inr ''Infinity''"
  "toFixed2 nts NegInf = Inr ''-Infinity''"
  by (simp_all add: toFixed2_def)

lemma toFixed2_number:
  assumes "v \<noteq> Undefined"
  shows "\<exists>s. toFixed2 nts v = Inr s"
  using assms by (cases v) (simp_all add: toFixed2_def Let_def)

lemma number_text_Inr:
  assumes "v \<noteq> Undefined"
  shows "toFixed2 nts v = Inr (number_text nts v)"
  using toFixed2_number[OF assms, of nts] by (auto simp: number_text_def)

lemma csv_row_text:
  assumes "numeric_stats (stats r)"
  shows "csv_row nts r = Inr (row_text nts r)"
  using assms by (simp add: numeric_stats_def csv_row_def row_text_def number_text_Inr)

lemma export_loop_text:
  assumes "\<And>r. r \<in> set rs \<Longrightarrow> numeric_stats (stats r)"
  shows "export_loop nts rs lines = Inr (lines @ map (row_text nts) rs)"
  using assms by (induction rs arbitrary: lines) (simp_all add: csv_row_text)

lemma exportToCSV_text:
  assumes "\<And>r. r \<in> set (results report) \<Longrightarrow> numeric_stats (stats r)"
      and "dir_entries fs \<noteq> None"
  shows "\<exists>fs'. exportToCSV nts now_iso now_ms fs report = Inr (csv_path fs report now_iso, fs') \<and>
           files fs' (csv_path fs report now_iso) = Some (Text (csv_text nts report))"
  using assms(2)
  by (auto simp: exportToCSV_def export_loop_text[OF assms(1)] Let_def writeFileSync_def
      csv_path_def csv_text_def)

lemma number_text_nonfinite:
  "number_text nts NaN = ''NaN''" "number_text nts PosInf = ''Infinity''"
  "number_text nts NegInf = ''-Infinity''"
  by (simp_all add: number_text_def toFixed2_nonfinite)

lemma csv_row_undefined_mean:
  assumes "mean (stats r) = Undefined"
  shows "\<exists>e. csv_row nts r = Inl e"
  using assms by (simp add: csv_row_def toFixed2_def)

lemma exportToCSV_undefined_mean:
  assumes "mean (stats r) = Undefined"
  shows "\<exists>e. exportToCSV nts now_iso now_ms fs (report\<lparr>results := [r]\<rparr>) = Inl e"
proof -
  obtain e where "csv_row nts r = Inl e" using csv_row_undefined_mean[OF assms] by blast
  then show ?thesis by (simp add: exportToCSV_def)
qed

lemma nan_row:
  "row_text nts (sample_result ''T'' NaN) =
     ''T,2025-01-15T10:00:00.000Z,NaN,1.00,1.00,1.00,1.00,1.00,0.00,10''"
  by (simp add: row_text_def sample_result_def number_text_def toFixed2_one toFixed2_zero
      toFixed2_nonfinite dec_values)

lemma nan_csv_text:
  "csv_text nts (sample_report [sample_result ''T'' NaN]) =
     csv_header @ [CHR 0x0A] @ ''T,2025-01-15T10:00:00.000Z,NaN,1.00,1.00,1.00,1.00,1.00,0.00,10''"
  unfolding csv_text_def by (simp add: sample_report_def nan_row csv_header_def)

lemma nan_csv_path:
  "csv_path (sample_fs [] None) (sample_report [sample_result ''T'' NaN]) ''2025-01-15T10:00:00.000Z''
     = ''/repo/performance-results/ipc-performance_2025-01-15T10-00-00-000Z.csv''"
  by (simp add: csv_path_def sample_fs_def sample_report_def RESULTS_DIR_def join_def)

lemma nan_numeric: "numeric_stats (stats (sample_result ''T'' NaN))"
  by (simp add: numeric_stats_def sample_result_def)

text \<open>
  Claim C9, as stated: for some report with a non-finite statistic, such as a \<open>NaN\<close>
  mean, \<open>exportToCSV\<close> fails with an InvalidInput condition instead of writing a coerced
  text. The export validates nothing: for the report of one result \<open>T\<close> with a
  \<open>NaN\<close> mean it returns the path of the file it wrote, and the row written has the
  text \<open>NaN\<close> as its mean.
\<close>

theorem exportToCSV_writes_NaN:
  "exportToCSV sample_toString ''2025-01-15T10:00:00.000Z'' 0 (sample_fs [] None)
     (sample_report [sample_result ''T'' NaN]) =
   Inr (''/repo/performance-results/ipc-performance_2025-01-15T10-00-00-000Z.csv'',
        (sample_fs [] None)
          \<lparr>dir_entries := Some [(''ipc-performance_2025-01-15T10-00-00-000Z.csv'', 0)],
           files := (files (sample_fs [] None))
             (''/repo/performance-results/ipc-performance_2025-01-15T10-00-00-000Z.csv'' \<mapsto>
              Text (csv_header @ [CHR 0x0A] @
                ''T,2025-01-15T10:00:00.000Z,NaN,1.00,1.00,1.00,1.00,1.00,0.00,10''))\<rparr>)"
proof -
  have l: "export_loop sample_toString (results (sample_report [sample_result ''T'' NaN])) [csv_header]
      = Inr [csv_header, ''T,2025-01-15T10:00:00.000Z,NaN,1.00,1.00,1.00,1.00,1.00,0.00,10'']"
    using export_loop_text[of "[sample_result ''T'' NaN]" sample_toString "[csv_header]"] nan_numeric
    by (simp add: sample_report_def nan_row)
  show ?thesis
    unfolding exportToCSV_def l
    by (simp add: Let_def writeFileSync_def sample_fs_def sample_report_def RESULTS_DIR_def join_def)
qed

text \<open>
  Claim C9, amended: \<open>exportToCSV\<close> does not validate the statistics. For every report
  whose statistics are all Numbers, finite or not, and an existing results directory, it
  succeeds and writes the CSV text of the report, in which a non-finite statistic is the
  text \<open>NaN\<close>, \<open>Infinity\<close> or \<open>-Infinity\<close>.
\<close>

theorem exportToCSV_no_validation:
  assumes "\<forall>r\<in>set (results report). numeric_stats (stats r)" and "dir_entries fs \<noteq> None"
  shows "(\<exists>fs'. exportToCSV nts now_iso now_ms fs report = Inr (csv_path fs report now_iso, fs') \<and>
            files fs' (csv_path fs report now_iso) = Some (Text (csv_text nts report))) \<and>
         number_text nts NaN = ''NaN'' \<and> number_text nts PosInf = ''Infinity'' \<and>
         number_text nts NegInf = ''-Infinity''"
  using exportToCSV_text[of report fs nts now_iso now_ms] assms number_text_nonfinite[of nts]
  by blast

theorem exportToCSV_no_validation_witness:
  "results (sample_report [sample_result ''T'' NaN]) = [sample_result ''T'' NaN] \<and>
   numeric_stats (stats (sample_result ''T'' NaN)) \<and>
   dir_entries (sample_fs [] None) \<noteq> None \<and>
   (\<exists>fs'. exportToCSV sample_toString ''2025-01-15T10:00:00.000Z'' 0 (sample_fs [] None)
             (sample_report [sample_result ''T'' NaN]) =
           Inr (''/repo/performance-results/ipc-performance_2025-01-15T10-00-00-000Z.csv'', fs') \<and>
           files fs' ''/repo/performance-results/ipc-performance_2025-01-15T10-00-00-000Z.csv'' =
           Some (Text (csv_header @ [CHR 0x0A] @
                ''T,2025-01-15T10:00:00.000Z,NaN,1.00,1.00,1.00,1.00,1.00,0.00,10'')))"
proof -
  have r: "results (sample_report [sample_result ''T'' NaN]) = [sample_result ''T'' NaN]"
    by (simp add: sample_report_def)
  have h1: "\<forall>r\<in>set (results (sample_report [sample_result ''T'' NaN])). numeric_stats (stats r)"
    using nan_numeric by (simp add: sample_report_def)
  have h2: "dir_entries (sample_fs [] None) \<noteq> None" by (simp add: sample_fs_def)
  show ?thesis
    using r nan_numeric h2
      exportToCSV_no_validation[OF h1 h2, of sample_toString "''2025-01-15T10:00:00.000Z''" 0,
        THEN conjunct1]
    unfolding nan_csv_text nan_csv_path by (intro conjI)
qed

section \<open>Pruning\<close>

lemma unlink_loop_dir:
  assumes "dir_entries fs = Some E"
  shows "dir_entries (fst (unlink_loop ds (fs, m))) =
           Some (filter (\<lambda>e. fst e \<notin> name ` set ds) E)"
  using assms
proof (induction ds arbitrary: fs m E)
  case Nil
  then show ?case by simp
next
  case (Cons f rest)
  show ?case
  proof (cases "name f \<in> fst ` set E")
    case True
    define fs1 where "fs1 = fs\<lparr>dir_entries := Some (filter (\<lambda>e. fst e \<noteq> name f) E),
                     files := (files fs)(path f := None)\<rparr>"
    have u: "unlinkSync fs f = Inr fs1"
      using True Cons.prems by (simp add: unlinkSync_def fs1_def)
    have step: "unlink_loop (f # rest) (fs, m) =
                unlink_loop rest (fs1, m @ [''Deleted old result: '' @ name f])"
      by (simp only: unlink_loop.simps u sum.case)
    have d: "dir_entries fs1 = Some (filter (\<lambda>e. fst e \<noteq> name f) E)" by (simp add: fs1_def)
    have e1: "dir_entries (fst (unlink_loop rest (fs1, m @ [''Deleted old result: '' @ name f]))) =
            Some (filter (\<lambda>e. fst e \<notin> name ` set rest) (filter (\<lambda>e. fst e \<noteq> name f) E))"
      by (rule Cons.IH[OF d])
    have e2: "filter (\<lambda>e. fst e \<notin> name ` set rest) (filter (\<lambda>e. fst e \<noteq> name f) E) =
               filter (\<lambda>e. fst e \<notin> name ` set (f # rest)) E"
      by (auto intro: filter_cong)
    show ?thesis unfolding step e1 e2 ..
  next
    case False
    obtain e where u: "unlinkSync fs f = Inl e"
      using False Cons.prems by (simp add: unlinkSync_def)
    have step: "unlink_loop (f # rest) (fs, m) =
                unlink_loop rest (fs, m @ [''Failed to delete '' @ name f])"
      by (simp only: unlink_loop.simps u sum.case)
    have e1: "dir_entries (fst (unlink_loop rest (fs, m @ [''Failed to delete '' @ name f]))) =
            Some (filter (\<lambda>e. fst e \<notin> name ` set rest) E)"
      by (rule Cons.IH[OF Cons.prems])
    have e2: "filter (\<lambda>e. fst e \<notin> name ` set rest) E =
               filter (\<lambda>e. fst e \<notin> name ` set (f # rest)) E"
    proof (rule filter_cong[OF refl])
      fix x assume "x \<in> set E"
      then have "fst x \<noteq> name f" using False by force
      then show "(fst x \<notin> name ` set rest) = (fst x \<notin> name ` set (f # rest))" by simp
    qed
    show ?thesis unfolding step e1 e2 ..
  qed
qed

lemma unlink_loop_files:
  assumes "p \<notin> path ` set ds"
  shows "files (fst (unlink_loop ds (fs, m))) p = files fs p"
  using assms
proof (induction ds arbitrary: fs m)
  case Nil
  then show ?case by simp
next
  case (Cons f rest)
  then have p: "p \<noteq> path f" "p \<notin> path ` set rest" by auto
  show ?case
  proof (cases "unlinkSync fs f")
    case (Inl e)
    then show ?thesis using Cons.IH[OF p(2)] by simp
  next
    case (Inr fs1)
    then have "files fs1 p = files fs p" using p(1)
      by (auto simp: unlinkSync_def split: option.splits if_splits)
    then show ?thesis using Inr Cons.IH[OF p(2), of fs1] by simp
  qed
qed

lemma js_slice_nonneg: "0 \<le> k \<Longrightarrow> js_slice k xs = drop (nat k) xs"
  by (auto simp: js_slice_def Let_def min_def)

lemma cleanupOldResults_fs:
  assumes "0 \<le> keepLast" "dir_entries fs = Some entries"
  shows "fst (cleanupOldResults keepLast fs) =
           fst (unlink_loop (drop (nat keepLast) (result_files fs entries)) (fs, []))"
  using assms
  by (simp add: cleanupOldResults_def Let_def js_slice_nonneg result_files_def is_result_file_def
      split: prod.splits)

lemma set_result_files:
  "set (result_files fs entries) = file_info_of fs ` {e \<in> set entries. is_result_file (fst e)}"
  by (auto simp: result_files_def newest_first_def)

lemma names_result_files:
  "mset (map name (result_files fs entries)) =
     mset (map fst (filter (\<lambda>e. is_result_file (fst e)) entries))"
proof -
  have "mset (result_files fs entries) =
          mset (map (file_info_of fs) (filter (\<lambda>e. is_result_file (fst e)) entries))"
    by (simp add: result_files_def newest_first_def)
  then have "mset (map name (result_files fs entries)) =
          mset (map name (map (file_info_of fs) (filter (\<lambda>e. is_result_file (fst e)) entries)))"
    by (metis mset_map)
  then show ?thesis by (simp add: file_info_of_def comp_def)
qed

lemma distinct_result_files:
  assumes "distinct (map fst entries)"
  shows "distinct (map name (result_files fs entries))"
proof -
  have "distinct (map fst (filter (\<lambda>e. is_result_file (fst e)) entries))"
    using assms by (rule distinct_map_filter)
  then show ?thesis using names_result_files[of fs entries]
    by (metis mset_eq_imp_distinct_iff)
qed

lemma kept_deleted_disjoint:
  assumes "distinct (map fst entries)"
  shows "name ` set (take k (result_files fs entries)) \<inter>
         name ` set (drop k (result_files fs entries)) = {}"
proof -
  have "distinct (map name (take k (result_files fs entries) @ drop k (result_files fs entries)))"
    using distinct_result_files[OF assms, of fs] by simp
  then show ?thesis by (simp only: map_append distinct_append set_map)
qed

lemma kept_newer:
  assumes "f \<in> set (take k (result_files fs entries))"
      and "g \<in> set (drop k (result_files fs entries))"
  shows "mtime g \<le> mtime f"
proof -
  have "sorted (map (\<lambda>f. - mtime f) (result_files fs entries))"
    by (simp add: result_files_def newest_first_def)
  then have "sorted (map (\<lambda>f. - mtime f) (take k (result_files fs entries)) @
                     map (\<lambda>f. - mtime f) (drop k (result_files fs entries)))"
    by (simp only: map_append[symmetric] append_take_drop_id)
  then have "- mtime f \<le> - mtime g" using assms by (auto simp: sorted_append)
  then show ?thesis by simp
qed

lemma deleted_are_result_files:
  assumes "g \<in> set (drop k (result_files fs entries))"
  shows "is_result_file (name g) \<and> (name g, mtime g) \<in> set entries \<and>
         path g = join (RESULTS_DIR fs) (name g)"
proof -
  from assms have "g \<in> set (result_files fs entries)" by (rule in_set_dropD)
  then show ?thesis by (auto simp: set_result_files file_info_of_def)
qed

lemma baseline_not_result_file: "\<not> is_result_file ''baseline.json''"
  by (simp add: is_result_file_def)

lemma join_inject: "join d a = join d b \<Longrightarrow> a = b"
  by (simp add: join_def)

text \<open>
  Claim C8: for every \<open>keepLast \<ge> 0\<close>, \<open>cleanupOldResults\<close> deletes exactly the
  non-baseline JSON files of the results directory beyond the \<open>keepLast\<close> most recently
  modified and leaves every other file as it is; \<open>baseline.json\<close> is never deleted.
  With the result files ordered by modification time, the latest first: the entries
  that remain are those whose name is not among the files after the first \<open>keepLast\<close>;
  none of the first \<open>keepLast\<close> is deleted, and none of them is older than a deleted
  one; every deleted file is a non-baseline JSON file of the directory; the content at
  any path other than those of the deleted files, that of the baseline among them, is
  unchanged.
\<close>

theorem cleanupOldResults_prunes:
  assumes "0 \<le> keepLast" and "dir_entries fs = Some entries" and "distinct (map fst entries)"
  shows "dir_entries (fst (cleanupOldResults keepLast fs)) =
           Some (filter (\<lambda>e. fst e \<notin> name ` set (drop (nat keepLast) (result_files fs entries)))
                   entries) \<and>
         name ` set (take (nat keepLast) (result_files fs entries)) \<inter>
           name ` set (drop (nat keepLast) (result_files fs entries)) = {} \<and>
         (\<forall>f\<in>set (take (nat keepLast) (result_files fs entries)).
            \<forall>g\<in>set (drop (nat keepLast) (result_files fs entries)). mtime g \<le> mtime f) \<and>
         (\<forall>g\<in>set (drop (nat keepLast) (result_files fs entries)).
            is_result_file (name g) \<and> (name g, mtime g) \<in> set entries) \<and>
         ''baseline.json'' \<notin> name ` set (drop (nat keepLast) (result_files fs entries)) \<and>
         length (take (nat keepLast) (result_files fs entries)) =
           min (nat keepLast) (length (filter (\<lambda>e. is_result_file (fst e)) entries)) \<and>
         (\<forall>p. p \<notin> path ` set (drop (nat keepLast) (result_files fs entries)) \<longrightarrow>
            files (fst (cleanupOldResults keepLast fs)) p = files fs p) \<and>
         files (fst (cleanupOldResults keepLast fs)) (BASELINE_FILE fs) = files fs (BASELINE_FILE fs)"
proof -
  let ?R = "result_files fs entries"
  let ?D = "drop (nat keepLast) ?R"
  note c = cleanupOldResults_fs[OF assms(1,2)]
  have 1: "dir_entries (fst (cleanupOldResults keepLast fs)) =
           Some (filter (\<lambda>e. fst e \<notin> name ` set ?D) entries)"
    unfolding c by (rule unlink_loop_dir[OF assms(2)])
  have 2: "name ` set (take (nat keepLast) ?R) \<inter> name ` set ?D = {}"
    by (rule kept_deleted_disjoint[OF assms(3)])
  have 3: "\<forall>f\<in>set (take (nat keepLast) ?R). \<forall>g\<in>set ?D. mtime g \<le> mtime f"
    using kept_newer by blast
  have 4: "\<forall>g\<in>set ?D. is_result_file (name g) \<and> (name g, mtime g) \<in> set entries"
    using deleted_are_result_files by blast
  have 5: "''baseline.json'' \<notin> name ` set ?D"
    using 4 baseline_not_result_file by force
  have 6: "length (take (nat keepLast) ?R) =
           min (nat keepLast) (length (filter (\<lambda>e. is_result_file (fst e)) entries))"
    by (simp add: result_files_def newest_first_def min.commute)
  have 7: "\<forall>p. p \<notin> path ` set ?D \<longrightarrow> files (fst (cleanupOldResults keepLast fs)) p = files fs p"
    unfolding c using unlink_loop_files by blast
  have "BASELINE_FILE fs \<notin> path ` set ?D"
  proof
    assume "BASELINE_FILE fs \<in> path ` set ?D"
    then obtain g where g: "g \<in> set ?D" "path g = BASELINE_FILE fs" by auto
    then have "join (RESULTS_DIR fs) (name g) = join (RESULTS_DIR fs) ''baseline.json''"
      using deleted_are_result_files[OF g(1)] by (simp add: BASELINE_FILE_def)
    then have "name g = ''baseline.json''" by (rule join_inject)
    with g(1) 5 show False by force
  qed
  with 7 have 8: "files (fst (cleanupOldResults keepLast fs)) (BASELINE_FILE fs) = files fs (BASELINE_FILE fs)"
    by blast
  show ?thesis using 1 2 3 4 5 6 7 8 by (intro conjI)
qed

lemma five_result_files:
  "map name (drop 2 (result_files (sample_fs five_reports None) five_reports)) =
     [''ipc_report_3.json'', ''ipc_report_4.json'', ''ipc_report_1.json'']"
  by (simp add: result_files_def newest_first_def five_reports_def is_result_file_def
      endsWith_def file_info_of_def)

lemma five_remaining:
  "filter (\<lambda>e. fst e \<notin> name ` set (drop (nat 2) (result_files (sample_fs five_reports None) five_reports)))
     five_reports =
   [(''baseline.json'', 1), (''ipc_report_2.json'', 50), (''ipc_report_5.json'', 40)]"
proof -
  have "name ` set (drop 2 (result_files (sample_fs five_reports None) five_reports)) =
     set [''ipc_report_3.json'', ''ipc_report_4.json'', ''ipc_report_1.json'']"
    unfolding five_result_files[symmetric] by simp
  then show ?thesis by (simp add: five_reports_def)
qed

theorem cleanupOldResults_prunes_witness:
  "(0 :: int) \<le> 2 \<and> dir_entries (sample_fs five_reports None) = Some five_reports \<and>
   distinct (map fst five_reports) \<and>
   dir_entries (fst (cleanupOldResults 2 (sample_fs five_reports None))) =
     Some [(''baseline.json'', 1), (''ipc_report_2.json'', 50), (''ipc_report_5.json'', 40)]"
proof -
  have h1: "(0 :: int) \<le> 2" by simp
  have h2: "dir_entries (sample_fs five_reports None) = Some five_reports"
    by (simp add: sample_fs_def)
  have h3: "distinct (map fst five_reports)" by (simp add: five_reports_def)
  show ?thesis
    using h1 h2 h3 cleanupOldResults_prunes[OF h1 h2 h3, THEN conjunct1]
    unfolding five_remaining by (intro conjI)
qed

end
